theory Spec2Isabelle
  imports Complex_Main "HOL-Library.Char_ord" "HOL-Library.List_Lexorder"
    "HOL-Library.Product_Lexorder"
begin

section \<open>Numbers\<close>

text \<open>
  Numeric cells are IEEE doubles in the source. Here a double is an exact real, one of
  the two infinities, or \<^verbatim>\<open>NaN\<close>: rounding, overflow and the sign of zero are left
  out, division by zero and the arithmetic of \<^verbatim>\<open>inf\<close> and \<^verbatim>\<open>NaN\<close> are kept.
\<close>

datatype fl = Fin real | PInf | NInf | NaN

fun fadd :: "fl \<Rightarrow> fl \<Rightarrow> fl" where
  "fadd NaN y = NaN"
| "fadd x NaN = NaN"
| "fadd (Fin x) (Fin y) = Fin (x + y)"
| "fadd PInf NInf = NaN"
| "fadd NInf PInf = NaN"
| "fadd PInf y = PInf"
| "fadd x PInf = PInf"
| "fadd NInf y = NInf"
| "fadd x NInf = NInf"

fun fsub :: "fl \<Rightarrow> fl \<Rightarrow> fl" where
  "fsub NaN y = NaN"
| "fsub x NaN = NaN"
| "fsub (Fin x) (Fin y) = Fin (x - y)"
| "fsub PInf PInf = NaN"
| "fsub NInf NInf = NaN"
| "fsub PInf y = PInf"
| "fsub x NInf = PInf"
| "fsub NInf y = NInf"
| "fsub x PInf = NInf"

fun fdiv :: "fl \<Rightarrow> fl \<Rightarrow> fl" where
  "fdiv NaN y = NaN"
| "fdiv x NaN = NaN"
| "fdiv (Fin x) (Fin y) =
     (if y \<noteq> 0 then Fin (x / y)
      else if 0 < x then PInf else if x < 0 then NInf else NaN)"
| "fdiv (Fin x) y = Fin 0"
| "fdiv PInf (Fin y) = (if 0 \<le> y then PInf else NInf)"
| "fdiv NInf (Fin y) = (if 0 \<le> y then NInf else PInf)"
| "fdiv x y = NaN"

text \<open>\<^verbatim>\<open>np.log2\<close>.\<close>

fun flog2 :: "fl \<Rightarrow> fl" where
  "flog2 (Fin x) = (if 0 < x then Fin (log 2 x) else if x = 0 then NInf else NaN)"
| "flog2 PInf = PInf"
| "flog2 NInf = NaN"
| "flog2 NaN = NaN"

text \<open>pandas' \<^verbatim>\<open>sum\<close> skips \<^verbatim>\<open>NaN\<close> cells; the sum of no cell is 0.\<close>

definition fsum :: "fl list \<Rightarrow> fl" where
  "fsum xs = foldr fadd (filter (\<lambda>x. x \<noteq> NaN) xs) (Fin 0)"

section \<open>Data frames\<close>

text \<open>
  A data frame, as \<^verbatim>\<open>pd.read_csv\<close> delivers it, is a list of named columns in file
  order. A column holds text (dtype \<^verbatim>\<open>object\<close>, a missing cell being \<open>None\<close>),
  integers (\<^verbatim>\<open>int64\<close>) or doubles (\<^verbatim>\<open>float64\<close>). Columns of booleans, which the
  parser infers when every cell reads \<^verbatim>\<open>True\<close> or \<^verbatim>\<open>False\<close>, are left out, and
  so is the 64-bit range of the integers.
\<close>

datatype column = Text "string option list" | Ints "int list" | Floats "fl list"

type_synonym frame = "(string \<times> column) list"

fun column_length :: "column \<Rightarrow> nat" where
  "column_length (Text xs) = length xs"
| "column_length (Ints xs) = length xs"
| "column_length (Floats xs) = length xs"

text \<open>
  What holds of every parsed table: column names are distinct (the parser renames
  duplicates), all columns have one cell per row, and a text column with rows holds a
  string (a column without any string is read as \<^verbatim>\<open>float64\<close>).
\<close>

definition wf_column :: "column \<Rightarrow> bool" where
  "wf_column c = (case c of Text xs \<Rightarrow> xs = [] \<or> list_ex (\<lambda>x. x \<noteq> None) xs | _ \<Rightarrow> True)"

definition wf_frame :: "frame \<Rightarrow> nat \<Rightarrow> bool" where
  "wf_frame df n \<longleftrightarrow>
     distinct (map fst df) \<and>
     list_all (\<lambda>c. column_length (snd c) = n \<and> wf_column (snd c)) df"

datatype error =
  FileNotFoundError | IsADirectoryError | NotADirectoryError | ParserError
  | KeyError | TypeError | ValueError | OverflowError | IndexError

text \<open>\<^verbatim>\<open>df['name']\<close>.\<close>

definition getitem :: "frame \<Rightarrow> string \<Rightarrow> error + column" where
  "getitem df name = (case map_of df name of None \<Rightarrow> Inl KeyError | Some c \<Rightarrow> Inr c)"

text \<open>
  A column as an operand of arithmetic: integers become doubles, a string raises
  \<^verbatim>\<open>TypeError\<close>. A text column without rows has no cell to raise on.
\<close>

definition to_numeric :: "column \<Rightarrow> error + fl list" where
  "to_numeric c =
     (case c of
        Text xs \<Rightarrow> if xs = [] then Inr [] else Inl TypeError
      | Ints xs \<Rightarrow> Inr (map (\<lambda>i. Fin (real_of_int i)) xs)
      | Floats xs \<Rightarrow> Inr xs)"

text \<open>
  A gene identifier is a cell of the \<^verbatim>\<open>Geneid\<close> column: a string, a numpy integer or a
  numpy double; a missing identifier (\<^verbatim>\<open>NaN\<close>) is \<open>None\<close>.
\<close>

datatype gid = GStr string | GInt int | GFlt fl

definition gene_cells :: "column \<Rightarrow> gid option list" where
  "gene_cells c =
     (case c of
        Text xs \<Rightarrow> map (map_option GStr) xs
      | Ints xs \<Rightarrow> map (\<lambda>i. Some (GInt i)) xs
      | Floats xs \<Rightarrow> map (\<lambda>x. if x = NaN then None else Some (GFlt x)) xs)"

text \<open>The table \<^verbatim>\<open>calculate_log2_tpm\<close> returns: \<^verbatim>\<open>Geneid\<close> first, then one column per sample.\<close>

record log2_table =
  Geneids :: "gid option list"
  log2_cols :: "(string \<times> fl list) list"

section \<open>Normalisation: \<^verbatim>\<open>calculate_log2_tpm\<close>\<close>

text \<open>\<^verbatim>\<open>df.iloc[:, 6:]\<close> as operands: the first text column with a string raises.\<close>

fun numeric_columns :: "frame \<Rightarrow> error + (string \<times> fl list) list" where
  "numeric_columns [] = Inr []"
| "numeric_columns ((s, c) # cs) =
     (case to_numeric c of
        Inl e \<Rightarrow> Inl e
      | Inr xs \<Rightarrow>
          (case numeric_columns cs of
             Inl e \<Rightarrow> Inl e
           | Inr r \<Rightarrow> Inr ((s, xs) # r)))"

text \<open>\<^verbatim>\<open>counts.div(lengths / 1000, axis=0)\<close>: every column is divided row by row.\<close>

definition div_axis0 :: "fl list \<Rightarrow> fl list \<Rightarrow> fl list" where
  "div_axis0 col d = map2 (\<lambda>c l. fdiv c l) col d"

text \<open>Lines 15 to 20: the \<^verbatim>\<open>Length\<close> column, the count columns, reads per kilobase.\<close>

definition rpk_of :: "frame \<Rightarrow> error + (string \<times> fl list) list" where
  "rpk_of df =
     (case getitem df ''Length'' of
        Inl e \<Rightarrow> Inl e
      | Inr lengths \<Rightarrow>
          (case to_numeric lengths of
             Inl e \<Rightarrow> Inl e
           | Inr ls \<Rightarrow>
               (case numeric_columns (drop 6 df) of
                  Inl e \<Rightarrow> Inl e
                | Inr counts \<Rightarrow>
                    Inr (map (\<lambda>(s, col). (s, div_axis0 col (map (\<lambda>l. fdiv l (Fin 1000)) ls)))
                             counts))))"

text \<open>\<^verbatim>\<open>rpk.sum(axis=0) / 1e6\<close>: one factor per sample column.\<close>

definition scaling_factors :: "(string \<times> fl list) list \<Rightarrow> fl list" where
  "scaling_factors rpk = map (\<lambda>(s, col). fdiv (fsum col) (Fin 1000000)) rpk"

text \<open>\<^verbatim>\<open>rpk.div(scaling_factors, axis=1)\<close>: every column is divided by its own factor.\<close>

definition tpm_of :: "frame \<Rightarrow> error + (string \<times> fl list) list" where
  "tpm_of df =
     (case rpk_of df of
        Inl e \<Rightarrow> Inl e
      | Inr rpk \<Rightarrow>
          Inr (map2 (\<lambda>(s, col) f. (s, map (\<lambda>v. fdiv v f) col)) rpk (scaling_factors rpk)))"

text \<open>
  \<^verbatim>\<open>np.log2(tpm + 1)\<close>, then \<^verbatim>\<open>Geneid\<close> is put back as column 0;
  \<^verbatim>\<open>insert\<close> refuses a name the table already has.
\<close>

definition calculate_log2_tpm :: "frame \<Rightarrow> error + log2_table" where
  "calculate_log2_tpm df =
     (case getitem df ''Geneid'' of
        Inl e \<Rightarrow> Inl e
      | Inr gene_ids \<Rightarrow>
          (case tpm_of df of
             Inl e \<Rightarrow> Inl e
           | Inr tpm \<Rightarrow>
               (let log2_tpm = map (\<lambda>(s, col). (s, map (\<lambda>v. flog2 (fadd v (Fin 1))) col)) tpm
                in if ''Geneid'' \<in> set (map fst log2_tpm) then Inl ValueError
                   else Inr \<lparr>Geneids = gene_cells gene_ids, log2_cols = log2_tpm\<rparr>)))"

section \<open>Long format and aggregation by condition\<close>

text \<open>
  \<^verbatim>\<open>result_df.melt(id_vars=['Geneid'], var_name='Sample', value_name='log2TPM')\<close>
  stacks the sample columns one after the other, each paired with the gene of its row;
  it refuses a table that has a column named like \<^verbatim>\<open>value_name\<close>.
\<close>

record plot_row =
  pr_Geneid :: "gid option"
  pr_Sample :: string
  pr_log2TPM :: fl
  pr_Condition :: string

definition melt :: "log2_table \<Rightarrow> error + (gid option \<times> string \<times> fl) list" where
  "melt t =
     (if ''log2TPM'' \<in> set (''Geneid'' # map fst (log2_cols t)) then Inl ValueError
      else Inr (concat (map (\<lambda>(s, col). map2 (\<lambda>g v. (g, s, v)) (Geneids t) col)
                            (log2_cols t))))"

text \<open>\<^verbatim>\<open>.str.split('_').str[0]\<close>: the text before the first underscore.\<close>

definition split_first :: "string \<Rightarrow> string" where
  "split_first s = takeWhile (\<lambda>c. c \<noteq> CHR ''_'') s"

definition plot_data_of :: "log2_table \<Rightarrow> error + plot_row list" where
  "plot_data_of t =
     (case melt t of
        Inl e \<Rightarrow> Inl e
      | Inr rows \<Rightarrow>
          Inr (map (\<lambda>(g, s, v). \<lparr>pr_Geneid = g, pr_Sample = s, pr_log2TPM = v,
                                  pr_Condition = split_first s\<rparr>) rows))"

text \<open>
  \<^verbatim>\<open>groupby(['Geneid', 'Condition'])['log2TPM'].agg(['mean', 'std']).reset_index()\<close>:
  rows with a missing gene identifier are dropped; there is one row per remaining key,
  keys in ascending order. \<^verbatim>\<open>mean\<close> and \<^verbatim>\<open>std\<close> skip \<^verbatim>\<open>NaN\<close> cells; the mean of
  no cell is \<^verbatim>\<open>NaN\<close>, and so is the standard deviation (pandas' default
  \<^verbatim>\<open>ddof=1\<close>) of fewer than two cells.
\<close>

record stat_row =
  st_Geneid :: gid
  st_Condition :: string
  st_mean :: fl
  st_std :: fl

definition dropna :: "fl list \<Rightarrow> fl list" where
  "dropna vs = filter (\<lambda>v. v \<noteq> NaN) vs"

fun reals_of :: "fl list \<Rightarrow> real list" where
  "reals_of [] = []"
| "reals_of (Fin x # vs) = x # reals_of vs"
| "reals_of (v # vs) = reals_of vs"

definition is_inf :: "fl \<Rightarrow> bool" where
  "is_inf v \<longleftrightarrow> v = PInf \<or> v = NInf"

definition mean_of :: "fl list \<Rightarrow> fl" where
  "mean_of vs =
     (let xs = dropna vs
      in if xs = [] then NaN else fdiv (fsum xs) (Fin (real (length xs))))"

text \<open>With an infinite cell the deviations are \<^verbatim>\<open>inf - inf\<close>, and the result is \<^verbatim>\<open>NaN\<close>.\<close>

definition std_of :: "fl list \<Rightarrow> fl" where
  "std_of vs =
     (let xs = dropna vs
      in if length xs < 2 then NaN
         else if list_ex is_inf xs then NaN
         else (let rs = reals_of xs; m = sum_list rs / real (length rs)
               in Fin (sqrt (sum_list (map (\<lambda>x. (x - m)\<^sup>2) rs) / real (length rs - 1)))))"

text \<open>
  The order of group keys. A column has one dtype, so only identifiers of one kind are
  ever compared: strings by code point, numbers by value.
\<close>

definition fl_key :: "fl \<Rightarrow> int \<times> real" where
  "fl_key v = (case v of NInf \<Rightarrow> (- 1, 0) | Fin x \<Rightarrow> (0, x) | PInf \<Rightarrow> (1, 0) | NaN \<Rightarrow> (2, 0))"

definition gid_key :: "gid \<Rightarrow> nat \<times> string \<times> int \<times> int \<times> real" where
  "gid_key g =
     (case g of
        GStr s \<Rightarrow> (0, s, 0, 0, 0)
      | GInt i \<Rightarrow> (1, [], i, 0, 0)
      | GFlt v \<Rightarrow> (2, [], 0, fl_key v))"

definition group_keys :: "plot_row list \<Rightarrow> (gid \<times> string) list" where
  "group_keys rows =
     sort_key (\<lambda>(g, c). (gid_key g, c))
       (remdups (concat (map (\<lambda>r. case pr_Geneid r of None \<Rightarrow> []
                                   | Some g \<Rightarrow> [(g, pr_Condition r)]) rows)))"

definition group_values :: "plot_row list \<Rightarrow> gid \<times> string \<Rightarrow> fl list" where
  "group_values rows k =
     map pr_log2TPM (filter (\<lambda>r. pr_Geneid r = Some (fst k) \<and> pr_Condition r = snd k) rows)"

definition groupby_agg :: "plot_row list \<Rightarrow> stat_row list" where
  "groupby_agg rows =
     map (\<lambda>(g, c). \<lparr>st_Geneid = g, st_Condition = c,
                     st_mean = mean_of (group_values rows (g, c)),
                     st_std = std_of (group_values rows (g, c))\<rparr>) (group_keys rows)"

text \<open>
  \<^verbatim>\<open>stats['Condition'].str.extract('(\d+)').astype(int)\<close>: the first run of digits of the
  condition name, read as a 64-bit integer. A name without a digit gives \<^verbatim>\<open>NaN\<close>, which
  \<^verbatim>\<open>astype(int)\<close> refuses; a run too long for 64 bits is refused too. The digits are
  the ASCII digits; the digits of other scripts, which \<^verbatim>\<open>\d\<close> matches too, are left
  out.
\<close>

record day_row = stat_row +
  Day :: int

definition is_digit :: "char \<Rightarrow> bool" where
  "is_digit c \<longleftrightarrow> CHR ''0'' \<le> c \<and> c \<le> CHR ''9''"

definition extract_digits :: "string \<Rightarrow> string" where
  "extract_digits s = takeWhile is_digit (dropWhile (\<lambda>c. \<not> is_digit c) s)"

definition int_of_digits :: "string \<Rightarrow> int" where
  "int_of_digits ds = foldl (\<lambda>a c. 10 * a + (int (of_char c) - 48)) 0 ds"

definition day_of :: "string \<Rightarrow> int" where
  "day_of c = int_of_digits (extract_digits c)"

definition astype_int :: "string \<Rightarrow> error + int" where
  "astype_int c =
     (if extract_digits c = [] then Inl ValueError
      else if 2 ^ 63 \<le> day_of c then Inl OverflowError
      else Inr (day_of c))"

fun with_day :: "stat_row list \<Rightarrow> error + day_row list" where
  "with_day [] = Inr []"
| "with_day (r # rs) =
     (case astype_int (st_Condition r) of
        Inl e \<Rightarrow> Inl e
      | Inr d \<Rightarrow>
          (case with_day rs of
             Inl e \<Rightarrow> Inl e
           | Inr ds \<Rightarrow>
               Inr (\<lparr>st_Geneid = st_Geneid r, st_Condition = st_Condition r,
                     st_mean = st_mean r, st_std = st_std r, Day = d\<rparr> # ds)))"

text \<open>\<^verbatim>\<open>stats.sort_values(['Geneid', 'Day'])\<close>; rows with equal keys keep their order.\<close>

definition sort_values :: "day_row list \<Rightarrow> day_row list" where
  "sort_values rows = sort_key (\<lambda>r. (gid_key (st_Geneid r), Day r)) rows"

text \<open>Lines 52 to 57: the statistics table, or the exception of the conversion.\<close>

definition aggregate_stats :: "plot_row list \<Rightarrow> error + day_row list" where
  "aggregate_stats plot_data =
     (case with_day (groupby_agg plot_data) of
        Inl e \<Rightarrow> Inl e
      | Inr stats \<Rightarrow> Inr (sort_values stats))"

section \<open>Traces, buttons and the figure\<close>

text \<open>\<^verbatim>\<open>stats['Geneid'].unique()\<close>: the distinct values in order of first appearance.\<close>

fun unique :: "'a list \<Rightarrow> 'a list" where
  "unique [] = []"
| "unique (x # xs) = x # filter (\<lambda>y. y \<noteq> x) (unique xs)"

definition num_to_show :: nat where
  "num_to_show = 200"

text \<open>
  A gene in an f-string: a string as it is, a number through Python's \<^verbatim>\<open>str\<close>, which
  is the parameter \<open>str_number\<close>. A gene as the \<^verbatim>\<open>name\<close> of a trace or the
  \<^verbatim>\<open>label\<close> of a button goes through plotly's string validator, which takes a string
  or a Python number (a numpy double is one) and refuses a numpy integer.
\<close>

definition format_gene :: "(gid \<Rightarrow> string) \<Rightarrow> gid \<Rightarrow> string" where
  "format_gene str_number gene = (case gene of GStr s \<Rightarrow> s | _ \<Rightarrow> str_number gene)"

definition validate_string :: "(gid \<Rightarrow> string) \<Rightarrow> gid \<Rightarrow> error + string" where
  "validate_string str_number gene =
     (case gene of
        GStr s \<Rightarrow> Inr s
      | GInt i \<Rightarrow> Inl ValueError
      | GFlt v \<Rightarrow> Inr (str_number gene))"

record trace =
  tr_x :: "string list"
  tr_y :: "fl list"
  tr_fill :: "string option"
  tr_fillcolor :: "string option"
  tr_line_color :: string
  tr_line_width :: "nat option"
  tr_hoverinfo :: "string option"
  tr_showlegend :: "bool option"
  tr_mode :: "string option"
  tr_name :: string
  tr_visible :: bool

text \<open>\<^verbatim>\<open>stats[stats['Geneid'] == gene]\<close> and \<^verbatim>\<open>.fillna(0)\<close>.\<close>

definition gene_stats_of :: "day_row list \<Rightarrow> gid \<Rightarrow> day_row list" where
  "gene_stats_of stats gene = filter (\<lambda>r. st_Geneid r = gene) stats"

definition fillna0 :: "fl \<Rightarrow> fl" where
  "fillna0 v = (if v = NaN then Fin 0 else v)"

definition ribbon_trace :: "(gid \<Rightarrow> string) \<Rightarrow> day_row list \<Rightarrow> nat \<Rightarrow> gid \<Rightarrow> trace" where
  "ribbon_trace str_number stats i gene =
     (let gene_stats = gene_stats_of stats gene;
          x = map st_Condition gene_stats;
          y_upper = map (\<lambda>r. fadd (st_mean r) (fillna0 (st_std r))) gene_stats;
          y_lower = map (\<lambda>r. fsub (st_mean r) (fillna0 (st_std r))) gene_stats
      in \<lparr>tr_x = x @ rev x, tr_y = y_upper @ rev y_lower,
          tr_fill = Some ''toself'', tr_fillcolor = Some ''rgba(0,176,246,0.2)'',
          tr_line_color = ''rgba(255,255,255,0)'', tr_line_width = None,
          tr_hoverinfo = Some ''skip'', tr_showlegend = Some False, tr_mode = None,
          tr_name = format_gene str_number gene @ ''_ribbon'', tr_visible = (i = 0)\<rparr>)"

definition line_trace ::
  "(gid \<Rightarrow> string) \<Rightarrow> day_row list \<Rightarrow> nat \<Rightarrow> gid \<Rightarrow> error + trace" where
  "line_trace str_number stats i gene =
     (let gene_stats = gene_stats_of stats gene
      in case validate_string str_number gene of
           Inl e \<Rightarrow> Inl e
         | Inr name \<Rightarrow>
             Inr \<lparr>tr_x = map st_Condition gene_stats, tr_y = map st_mean gene_stats,
                  tr_fill = None, tr_fillcolor = None,
                  tr_line_color = ''rgb(0,176,246)'', tr_line_width = Some 3,
                  tr_hoverinfo = None, tr_showlegend = None, tr_mode = Some ''lines+markers'',
                  tr_name = name, tr_visible = (i = 0)\<rparr>)"

text \<open>
  The first loop: two \<^verbatim>\<open>fig.add_trace\<close> calls per gene, appended to \<^verbatim>\<open>fig.data\<close>.
  The ribbon is added before the line trace is built, whose \<^verbatim>\<open>name=gene\<close> can raise.
\<close>

fun add_traces ::
  "(gid \<Rightarrow> string) \<Rightarrow> day_row list \<Rightarrow> (nat \<times> gid) list \<Rightarrow> trace list \<Rightarrow> error + trace list" where
  "add_traces str_number stats [] data = Inr data"
| "add_traces str_number stats ((i, gene) # rest) data =
     (case line_trace str_number stats i gene of
        Inl e \<Rightarrow> Inl e
      | Inr line \<Rightarrow>
          add_traces str_number stats rest
            (data @ [ribbon_trace str_number stats i gene, line]))"

record button =
  bt_label :: gid
  bt_method :: string
  bt_visible :: "bool list"
  bt_title :: string

text \<open>Python's \<^verbatim>\<open>xs[i] = v\<close> raises \<^verbatim>\<open>IndexError\<close> outside the list.\<close>

definition setitem :: "'a list \<Rightarrow> nat \<Rightarrow> 'a \<Rightarrow> error + 'a list" where
  "setitem xs i v = (if i < length xs then Inr (xs[i := v]) else Inl IndexError)"

definition title_for :: "(gid \<Rightarrow> string) \<Rightarrow> gid \<Rightarrow> string" where
  "title_for str_number gene =
     ''Mean Expression Profile for '' @ format_gene str_number gene
       @ '' ('' @ [CHR 0xC2, CHR 0xB1] @ '' SD)''"

definition num_traces_per_gene :: nat where
  "num_traces_per_gene = 2"

definition make_button :: "(gid \<Rightarrow> string) \<Rightarrow> nat \<Rightarrow> nat \<Rightarrow> gid \<Rightarrow> error + button" where
  "make_button str_number total_traces i gene =
     (let visibility = replicate total_traces False;
          start_idx = i * num_traces_per_gene
      in case setitem visibility start_idx True of
           Inl e \<Rightarrow> Inl e
         | Inr v1 \<Rightarrow>
             (case setitem v1 (start_idx + 1) True of
                Inl e \<Rightarrow> Inl e
              | Inr v2 \<Rightarrow>
                  Inr \<lparr>bt_label = gene, bt_method = ''update'', bt_visible = v2,
                       bt_title = title_for str_number gene\<rparr>))"

text \<open>The second loop: one \<^verbatim>\<open>buttons.append\<close> per gene.\<close>

fun add_buttons ::
  "(gid \<Rightarrow> string) \<Rightarrow> nat \<Rightarrow> (nat \<times> gid) list \<Rightarrow> button list \<Rightarrow> error + button list" where
  "add_buttons str_number total_traces [] buttons = Inr buttons"
| "add_buttons str_number total_traces ((i, gene) # rest) buttons =
     (case make_button str_number total_traces i gene of
        Inl e \<Rightarrow> Inl e
      | Inr b \<Rightarrow> add_buttons str_number total_traces rest (buttons @ [b]))"

record figure =
  fig_data :: "trace list"
  fig_buttons :: "button list"
  fig_menu_direction :: string
  fig_menu_showactive :: bool
  fig_menu_x :: real
  fig_menu_y :: real
  fig_menu_pad_t :: nat
  fig_title :: string
  fig_xaxis_title :: string
  fig_yaxis_title :: string
  fig_template :: string
  fig_hovermode :: string

definition shown_genes :: "day_row list \<Rightarrow> (nat \<times> gid) list" where
  "shown_genes stats = List.enumerate 0 (take num_to_show (unique (map st_Geneid stats)))"

text \<open>
  Lines 60 to 135. \<^verbatim>\<open>unique_genes[0]\<close> in the title raises \<^verbatim>\<open>IndexError\<close> when the
  statistics table is empty; it is evaluated after both loops and before
  \<^verbatim>\<open>update_layout\<close> validates the button labels.
\<close>

definition build_figure :: "(gid \<Rightarrow> string) \<Rightarrow> day_row list \<Rightarrow> error + figure" where
  "build_figure str_number stats =
     (let unique_genes = unique (map st_Geneid stats)
      in case add_traces str_number stats (shown_genes stats) [] of
           Inl e \<Rightarrow> Inl e
         | Inr data \<Rightarrow>
             (case add_buttons str_number (length data) (shown_genes stats) [] of
                Inl e \<Rightarrow> Inl e
              | Inr buttons \<Rightarrow>
                  (case unique_genes of
                     [] \<Rightarrow> Inl IndexError
                   | g # _ \<Rightarrow>
                       if list_ex (\<lambda>b. isl (validate_string str_number (bt_label b))) buttons
                       then Inl ValueError
                       else
                         Inr \<lparr>fig_data = data, fig_buttons = buttons,
                              fig_menu_direction = ''down'', fig_menu_showactive = True,
                              fig_menu_x = 1 / 10, fig_menu_y = 12 / 10, fig_menu_pad_t = 10,
                              fig_title = title_for str_number g,
                              fig_xaxis_title = ''Days (Condition)'',
                              fig_yaxis_title = ''log2(TPM + 1)'',
                              fig_template = ''plotly_white'',
                              fig_hovermode = ''x unified''\<rparr>)))"

section \<open>The run: files and standard output\<close>

text \<open>
  The file system maps a path to a file's text or to a directory; standard output is the
  list of printed lines. A path names its node as it is written: there are no links, no
  permissions and no other spelling of a path. Three pieces of library code are
  parameters, kept in one record: the parser \<^verbatim>\<open>pd.read_csv\<close> (text, separator, comment character), plotly's
  HTML serialisation, and Python's \<^verbatim>\<open>str\<close> of a numpy number.
\<close>

datatype node = File string | Dir

record world =
  fs :: "string \<rightharpoonup> node"
  stdout :: "string list"

record library =
  read_csv :: "string \<Rightarrow> char \<Rightarrow> char \<Rightarrow> error + frame"
  to_html :: "figure \<Rightarrow> string"
  str_number :: "gid \<Rightarrow> string"

definition print :: "string \<Rightarrow> world \<Rightarrow> world" where
  "print s w = w\<lparr>stdout := stdout w @ [s]\<rparr>"

definition path_exists :: "world \<Rightarrow> string \<Rightarrow> bool" where
  "path_exists w p \<longleftrightarrow> fs w p \<noteq> None"

definition ends_with :: "string \<Rightarrow> string \<Rightarrow> bool" where
  "ends_with suffix s \<longleftrightarrow> length suffix \<le> length s \<and> drop (length s - length suffix) s = suffix"

text \<open>
  The directory a path lies in: the text before its last slash; a path without a slash
  lies in the working directory, which exists, and so does the root.
\<close>

definition dirname :: "string \<Rightarrow> string option" where
  "dirname p =
     (if CHR ''/'' \<in> set p then Some (rev (tl (dropWhile (\<lambda>c. c \<noteq> CHR ''/'') (rev p))))
      else None)"

text \<open>Opening a path for writing.\<close>

definition open_w :: "world \<Rightarrow> string \<Rightarrow> error + unit" where
  "open_w w p =
     (case fs w p of
        Some Dir \<Rightarrow> Inl IsADirectoryError
      | _ \<Rightarrow>
          (case dirname p of
             None \<Rightarrow> Inr ()
           | Some d \<Rightarrow>
               if d = [] then Inr ()
               else (case fs w d of
                       None \<Rightarrow> Inl FileNotFoundError
                     | Some (File t) \<Rightarrow> Inl NotADirectoryError
                     | Some Dir \<Rightarrow> Inr ())))"

text \<open>
  \<^verbatim>\<open>plot(fig, filename=output_html, auto_open=False)\<close> writes one HTML file; plotly
  appends \<^verbatim>\<open>.html\<close> to a file name that does not end with it.
\<close>

definition plot_filename :: "string \<Rightarrow> string" where
  "plot_filename filename = (if ends_with ''.html'' filename then filename else filename @ ''.html'')"

definition plot :: "library \<Rightarrow> figure \<Rightarrow> string \<Rightarrow> world \<Rightarrow> (error + unit) \<times> world" where
  "plot lib fig filename w =
     (case open_w w (plot_filename filename) of
        Inl e \<Rightarrow> (Inl e, w)
      | Inr u \<Rightarrow> (Inr (), w\<lparr>fs := (fs w)(plot_filename filename \<mapsto> File (to_html lib fig))\<rparr>))"

definition generate_html_dashboard ::
  "library \<Rightarrow> string \<Rightarrow> string \<Rightarrow> world \<Rightarrow> (error + unit) \<times> world" where
  "generate_html_dashboard lib input_file output_html w =
     (let w1 = print (''Loading '' @ input_file @ ''...'') w
      in case fs w1 input_file of
           None \<Rightarrow> (Inl FileNotFoundError, w1)
         | Some Dir \<Rightarrow> (Inl IsADirectoryError, w1)
         | Some (File text) \<Rightarrow>
             (case read_csv lib text (CHR 0x09) (CHR ''#'') of
                Inl e \<Rightarrow> (Inl e, w1)
              | Inr df \<Rightarrow>
                  (let w2 = print ''Calculating log2(TPM + 1)...'' w1
                   in case calculate_log2_tpm df of
                        Inl e \<Rightarrow> (Inl e, w2)
                      | Inr result_df \<Rightarrow>
                          (case plot_data_of result_df of
                             Inl e \<Rightarrow> (Inl e, w2)
                           | Inr plot_data \<Rightarrow>
                               (let w3 = print ''Aggregating data by condition...'' w2
                                in case aggregate_stats plot_data of
                                     Inl e \<Rightarrow> (Inl e, w3)
                                   | Inr stats \<Rightarrow>
                                       (let w4 = print ''Generating Interactive Ribbon Plots...'' w3
                                        in case build_figure (str_number lib) stats of
                                             Inl e \<Rightarrow> (Inl e, w4)
                                           | Inr fig \<Rightarrow>
                                               (case plot lib fig output_html w4 of
                                                  (Inl e, w5) \<Rightarrow> (Inl e, w5)
                                                | (Inr u, w5) \<Rightarrow>
                                                    (Inr (),
                                                     print (''Done! Dashboard saved to '' @ output_html)
                                                       w5))))))))"

text \<open>The \<^verbatim>\<open>__main__\<close> block.\<close>

definition input_filename :: string where
  "input_filename = ''sense_read_counts''"

definition output_filename :: string where
  "output_filename = ''expression_dashboard.html''"

definition main :: "library \<Rightarrow> world \<Rightarrow> (error + unit) \<times> world" where
  "main lib w =
     (if path_exists w input_filename
      then generate_html_dashboard lib input_filename output_filename w
      else (Inr (), print (''Error: '' @ input_filename @ '' not found.'') w))"

section \<open>The aggregation in the words of the specification\<close>

text \<open>
  The log2TPM values of gene \<open>g\<close> taken over exactly those sample columns whose name
  prefix before the first underscore equals the condition \<open>c\<close>, in column order, and
  their arithmetic mean. These two definitions follow the specification, not the code;
  the code's grouping is \<open>group_values\<close> and its mean is \<open>mean_of\<close> above.
\<close>

definition condition_values :: "log2_table \<Rightarrow> gid \<Rightarrow> string \<Rightarrow> fl list" where
  "condition_values t g c =
     concat (map (\<lambda>(s, col). map snd (filter (\<lambda>(g', v). g' = Some g) (zip (Geneids t) col)))
                 (filter (\<lambda>(s, col). split_first s = c) (log2_cols t)))"

definition plain_mean :: "fl list \<Rightarrow> fl" where
  "plain_mean vs = fdiv (foldr fadd vs (Fin 0)) (Fin (real (length vs)))"

section \<open>Concrete tables\<close>

text \<open>One gene of length 1000 with one read in one sample.\<close>

definition df_one :: frame where
  "df_one = [(''Geneid'', Text [Some ''g1'']), (''Chr'', Text [Some ''chr1'']),
             (''Start'', Ints [1]), (''End'', Ints [1000]), (''Strand'', Text [Some ''+'']),
             (''Length'', Ints [1000]), (''d04_rep1'', Ints [1])]"

text \<open>Two genes, three samples in two conditions, listed out of time order; as text,
  \<^verbatim>\<open>d11\<close> comes before \<^verbatim>\<open>d4\<close>.\<close>

definition df_two :: frame where
  "df_two = [(''Geneid'', Text [Some ''g1'', Some ''g0'']),
             (''Chr'', Text [Some ''chr1'', Some ''chr1'']),
             (''Start'', Ints [1, 2001]), (''End'', Ints [1000, 4000]),
             (''Strand'', Text [Some ''+'', Some ''-'']),
             (''Length'', Ints [1000, 2000]),
             (''d11_rep1'', Ints [1, 2]), (''d4_rep1'', Ints [1, 4]), (''d4_rep2'', Ints [3, 2])]"

text \<open>Stand-ins for the library: a parser that reads the table \<open>df\<close> from any text, a
  serialiser with a fixed output, a fixed text for every number.\<close>

definition lib_for :: "frame \<Rightarrow> library" where
  "lib_for df = \<lparr>read_csv = (\<lambda>text sep comment. Inr df), to_html = (\<lambda>fig. ''<html>''),
                 str_number = (\<lambda>g. ''0'')\<rparr>"

definition stats_two :: "day_row list" where
  "stats_two =
     projr (aggregate_stats (projr (plot_data_of (projr (calculate_log2_tpm df_two)))))"

definition fig_two :: figure where
  "fig_two = projr (build_figure (str_number (lib_for df_two)) stats_two)"

text \<open>One gene with two replicates of day 4, a third replicate without a value, and one
  sample of day 7, already in log2 TPM.\<close>

definition t_small :: log2_table where
  "t_small = \<lparr>Geneids = [Some (GStr ''g1'')],
               log2_cols = [(''d04_rep1'', [Fin 1]), (''d04_rep2'', [Fin 3]),
                            (''d04_rep3'', [NaN]), (''d07_rep1'', [Fin 5])]\<rparr>"

definition stats_small :: "day_row list" where
  "stats_small = projr (aggregate_stats (projr (plot_data_of t_small)))"

text \<open>One gene and two replicates of day 4, the second without any read.\<close>

definition df_noreads :: frame where
  "df_noreads = [(''Geneid'', Text [Some ''g1'']), (''Chr'', Text [Some ''chr1'']),
                 (''Start'', Ints [1]), (''End'', Ints [1000]), (''Strand'', Text [Some ''+'']),
                 (''Length'', Ints [1000]), (''d04_rep1'', Ints [5]), (''d04_rep2'', Ints [0])]"

definition t_noreads :: log2_table where
  "t_noreads = projr (calculate_log2_tpm df_noreads)"

definition stats_noreads :: "day_row list" where
  "stats_noreads = projr (aggregate_stats (projr (plot_data_of t_noreads)))"

text \<open>One gene whose only sample name has no digit.\<close>

definition df_nodigit :: frame where
  "df_nodigit = [(''Geneid'', Text [Some ''g1'']), (''Chr'', Text [Some ''chr1'']),
                 (''Start'', Ints [1]), (''End'', Ints [1000]), (''Strand'', Text [Some ''+'']),
                 (''Length'', Ints [1000]), (''ctrl_rep1'', Ints [1])]"

text \<open>The one-gene table with the number 7 as gene identifier.\<close>

definition df_intid :: frame where
  "df_intid = [(''Geneid'', Ints [7]), (''Chr'', Text [Some ''chr1'']),
               (''Start'', Ints [1]), (''End'', Ints [1000]), (''Strand'', Text [Some ''+'']),
               (''Length'', Ints [1000]), (''d04_rep1'', Ints [1])]"

text \<open>A file system that holds the input file only, and one without it.\<close>

definition w_input :: world where
  "w_input = \<lparr>fs = [''sense_read_counts'' \<mapsto> File ''counts''], stdout = []\<rparr>"

definition w_other :: world where
  "w_other = \<lparr>fs = [''notes.txt'' \<mapsto> File ''keep''], stdout = []\<rparr>"

section \<open>Facts about the normalisation\<close>

lemma fadd_Fin_iff: "fadd a b = Fin s \<longleftrightarrow> (\<exists>x y. a = Fin x \<and> b = Fin y \<and> s = x + y)"
  by (cases a; cases b) auto

lemma fsum_Cons_NaN: "fsum (NaN # xs) = fsum xs"
  by (simp add: fsum_def)

lemma fsum_Cons: "v \<noteq> NaN \<Longrightarrow> fsum (v # xs) = fadd v (fsum xs)"
  by (simp add: fsum_def)

lemma fsum_Fin:
  assumes "fsum xs = Fin s"
  shows "\<not> list_ex is_inf xs \<and> s = sum_list (reals_of xs)"
  using assms
proof (induction xs arbitrary: s)
  case Nil
  then show ?case by (simp add: fsum_def)
next
  case (Cons v xs)
  show ?case
  proof (cases v)
    case NaN
    with Cons show ?thesis by (simp add: fsum_Cons_NaN is_inf_def)
  next
    case (Fin x)
    with Cons.prems have "fadd (Fin x) (fsum xs) = Fin s" by (simp add: fsum_Cons)
    then obtain y where y: "fsum xs = Fin y" "s = x + y" by (auto simp: fadd_Fin_iff)
    from Cons.IH [OF y(1)] y(2) Fin show ?thesis by (simp add: is_inf_def)
  next
    case PInf
    with Cons.prems have "fadd PInf (fsum xs) = Fin s" by (simp add: fsum_Cons)
    then show ?thesis by (simp add: fadd_Fin_iff)
  next
    case NInf
    with Cons.prems have "fadd NInf (fsum xs) = Fin s" by (simp add: fsum_Cons)
    then show ?thesis by (simp add: fadd_Fin_iff)
  qed
qed

lemma fsum_finite:
  assumes "\<not> list_ex is_inf xs"
  shows "fsum xs = Fin (sum_list (reals_of xs))"
  using assms
proof (induction xs)
  case Nil
  then show ?case by (simp add: fsum_def)
next
  case (Cons v xs)
  then show ?case
    by (cases v) (simp_all add: fsum_Cons fsum_Cons_NaN is_inf_def)
qed

lemma fdiv_const_column:
  assumes "\<not> list_ex is_inf xs" and "c \<noteq> 0"
  shows "\<not> list_ex is_inf (map (\<lambda>v. fdiv v (Fin c)) xs) \<and>
         reals_of (map (\<lambda>v. fdiv v (Fin c)) xs) = map (\<lambda>x. x / c) (reals_of xs)"
  using assms
proof (induction xs)
  case Nil
  then show ?case by simp
next
  case (Cons v xs)
  then show ?case
    by (cases v) (simp_all add: is_inf_def)
qed

lemma sum_list_div_const: "sum_list (map (\<lambda>v. v / c) xs) = sum_list xs / (c::real)"
  by (induction xs) (simp_all add: add_divide_distrib)

lemma tpm_of_Inr:
  assumes "rpk_of df = Inr rpk"
  shows "tpm_of df =
    Inr (map2 (\<lambda>(s, col) f. (s, map (\<lambda>v. fdiv v f) col)) rpk (scaling_factors rpk))"
  using assms by (simp add: tpm_of_def)

lemma tpm_nth:
  assumes "j < length rpk"
  shows "map2 (\<lambda>(s, col) f. (s, map (\<lambda>v. fdiv v f) col)) rpk (scaling_factors rpk) ! j =
    (fst (rpk ! j),
     map (\<lambda>v. fdiv v (fdiv (fsum (snd (rpk ! j))) (Fin 1000000))) (snd (rpk ! j)))"
  using assms by (simp add: scaling_factors_def case_prod_unfold)

text \<open>
  Claim C8. In exact arithmetic, for every sample column whose reads-per-kilobase sum is
  a number other than zero, the TPM values computed inside \<^verbatim>\<open>calculate_log2_tpm\<close> sum
  to exactly 1,000,000 over the genes of that column. The sums are the ones the code
  takes, which skip cells without a value; with numeric counts and nonzero gene lengths
  the reads-per-kilobase sum is a number (\<open>rpk_column_sum\<close> below).
\<close>

theorem tpm_column_sums_to_million:
  assumes "rpk_of df = Inr rpk" and "j < length rpk"
    and "fsum (snd (rpk ! j)) = Fin s" and "s \<noteq> 0"
  shows "\<exists>tpm. tpm_of df = Inr tpm \<and> length tpm = length rpk \<and>
               fsum (snd (tpm ! j)) = Fin 1000000"
proof -
  let ?tpm = "map2 (\<lambda>(s, col) f. (s, map (\<lambda>v. fdiv v f) col)) rpk (scaling_factors rpk)"
  let ?col = "snd (rpk ! j)"
  have len: "length ?tpm = length rpk"
    by (simp add: scaling_factors_def)
  from fsum_Fin [OF assms(3)] have fin: "\<not> list_ex is_inf ?col" and s: "s = sum_list (reals_of ?col)"
    by simp_all
  have c: "s / 1000000 \<noteq> 0" using assms(4) by simp
  have "snd (?tpm ! j) = map (\<lambda>v. fdiv v (Fin (s / 1000000))) ?col"
    using assms(4) by (simp add: tpm_nth [OF assms(2)] assms(3))
  moreover from fdiv_const_column [OF fin c]
  have "fsum (map (\<lambda>v. fdiv v (Fin (s / 1000000))) ?col) =
      Fin (sum_list (map (\<lambda>x. x / (s / 1000000)) (reals_of ?col)))"
    using fsum_finite by metis
  moreover have "sum_list (map (\<lambda>x. x / (s / 1000000)) (reals_of ?col)) = 1000000"
    using assms(4) by (simp only: sum_list_div_const s [symmetric]) simp
  ultimately have "fsum (snd (?tpm ! j)) = Fin 1000000"
    by simp
  with tpm_of_Inr [OF assms(1)] len show ?thesis by blast
qed

lemma to_numeric_length:
  assumes "to_numeric c = Inr xs"
  shows "length xs = column_length c"
  using assms by (cases c) (auto simp: to_numeric_def split: if_splits)

lemma numeric_columns_Inr:
  assumes "numeric_columns cs = Inr r"
  shows "map fst r = map fst cs \<and>
         (\<forall>j < length cs. to_numeric (snd (cs ! j)) = Inr (snd (r ! j)))"
  using assms
proof (induction cs arbitrary: r)
  case Nil
  then show ?case by simp
next
  case (Cons c cs)
  obtain s col where c: "c = (s, col)" by (cases c)
  from Cons.prems obtain xs r' where r: "to_numeric col = Inr xs" "numeric_columns cs = Inr r'"
    "r = (s, xs) # r'"
    by (auto simp: c split: sum.splits)
  from Cons.IH [OF r(2)] r(1,3) show ?case
    by (auto simp: c nth_Cons split: nat.splits)
qed

lemma numeric_columns_ok:
  assumes "\<forall>c \<in> set cs. \<not> isl (to_numeric (snd c))"
  shows "\<exists>r. numeric_columns cs = Inr r"
  using assms
proof (induction cs)
  case Nil
  then show ?case by simp
next
  case (Cons c cs)
  obtain s col where c: "c = (s, col)" by (cases c)
  from Cons.prems obtain xs where "to_numeric col = Inr xs"
    by (cases "to_numeric col") (auto simp: c)
  moreover from Cons obtain r where "numeric_columns cs = Inr r" by auto
  ultimately show ?case by (simp add: c)
qed

lemma getitem_mem:
  assumes "getitem df name = Inr c"
  shows "(name, c) \<in> set df"
  using assms by (auto simp: getitem_def split: option.splits dest: map_of_SomeD)

lemma wf_frame_length:
  assumes "wf_frame df n" and "(name, c) \<in> set df"
  shows "column_length c = n"
  using assms by (auto simp: wf_frame_def list_all_iff)

lemma div_axis0_finite:
  assumes "\<forall>l \<in> set ls. l \<noteq> 0"
  shows "div_axis0 (map Fin cs) (map (\<lambda>l. fdiv l (Fin 1000)) (map Fin ls)) =
         map Fin (map2 (\<lambda>c l. c / (l / 1000)) cs ls)"
  using assms unfolding div_axis0_def
  by (induction cs ls rule: list_induct2') simp_all

lemma reals_of_map_Fin: "reals_of (map Fin xs) = xs"
  by (induction xs) simp_all

lemma no_inf_map_Fin: "\<not> list_ex is_inf (map Fin xs)"
  by (induction xs) (simp_all add: is_inf_def)

lemma fsum_map_Fin: "fsum (map Fin xs) = Fin (sum_list xs)"
  using fsum_finite [OF no_inf_map_Fin, of xs] by (simp add: reals_of_map_Fin)

lemma sum_list_map2_nth:
  assumes "length cs = n" and "length ls = n"
  shows "sum_list (map2 f cs ls) = (\<Sum>k<n. f (cs ! k) (ls ! k))"
proof -
  have "sum_list (map2 f cs ls) = (\<Sum>k<length (map2 f cs ls). map2 f cs ls ! k)"
    by (simp add: sum_list_sum_nth atLeast0LessThan)
  also have "\<dots> = (\<Sum>k<n. f (cs ! k) (ls ! k))"
    using assms by simp
  finally show ?thesis .
qed

lemma tpm_table_names:
  "map fst (map2 (\<lambda>(s, col) f. (s, map (\<lambda>v. fdiv v f) col)) rpk (scaling_factors rpk)) =
   map fst rpk"
proof (rule nth_equalityI)
  show "length (map fst (map2 (\<lambda>(s, col) f. (s, map (\<lambda>v. fdiv v f) col)) rpk (scaling_factors rpk))) =
      length (map fst rpk)"
    by (simp add: scaling_factors_def)
next
  fix k
  assume "k < length (map fst (map2 (\<lambda>(s, col) f. (s, map (\<lambda>v. fdiv v f) col)) rpk (scaling_factors rpk)))"
  then have k: "k < length rpk" by (simp add: scaling_factors_def)
  then have "k < length (map2 (\<lambda>(s, col) f. (s, map (\<lambda>v. fdiv v f) col)) rpk (scaling_factors rpk))"
    by (simp add: scaling_factors_def)
  then show "map fst (map2 (\<lambda>(s, col) f. (s, map (\<lambda>v. fdiv v f) col)) rpk (scaling_factors rpk)) ! k =
      map fst rpk ! k"
    using k by (simp only: nth_map tpm_nth [OF k] fst_conv)
qed

lemma column_map_names: "map fst (map (\<lambda>(s, col). (s, g col)) cols) = map fst cols"
  by (simp add: comp_def case_prod_unfold)

text \<open>
  Claim C1, as the code has it. For a featureCounts frame with numeric, nonzero gene
  lengths, numeric count columns from the seventh column on and a nonzero
  reads-per-kilobase sum in sample \<open>j\<close>, \<^verbatim>\<open>calculate_log2_tpm\<close> returns a table that
  keeps the gene identifiers and the sample names and holds, for gene \<open>i\<close> and sample
  \<open>j\<close>, the base-2 logarithm of the gene's TPM plus one (the pseudocount of the
  docstring), the TPM being the gene's reads per kilobase divided by the column's
  reads-per-kilobase sum over 1e6. The logarithm is \<^verbatim>\<open>np.log2\<close>; it is the real
  logarithm whenever TPM + 1 is positive, as it is for counts that are not negative.
\<close>

theorem calculate_log2_tpm_value:
  assumes "wf_frame df n"
    and "getitem df ''Geneid'' = Inr gcol"
    and "getitem df ''Length'' = Inr lcol" and "to_numeric lcol = Inr (map Fin ls)"
    and "\<forall>l \<in> set ls. l \<noteq> 0"
    and "\<forall>c \<in> set (drop 6 df). fst c \<noteq> ''Geneid'' \<and> \<not> isl (to_numeric (snd c))"
    and "j < length (drop 6 df)" and "to_numeric (snd (drop 6 df ! j)) = Inr (map Fin cs)"
    and "(\<Sum>k<n. cs ! k / (ls ! k / 1000)) \<noteq> 0"
    and "i < n"
  shows "\<exists>t. calculate_log2_tpm df = Inr t \<and> Geneids t = gene_cells gcol \<and>
    map fst (log2_cols t) = map fst (drop 6 df) \<and>
    snd (log2_cols t ! j) ! i =
      flog2 (Fin (cs ! i / (ls ! i / 1000) /
                   ((\<Sum>k<n. cs ! k / (ls ! k / 1000)) / 1000000) + 1)) \<and>
    (0 < cs ! i / (ls ! i / 1000) / ((\<Sum>k<n. cs ! k / (ls ! k / 1000)) / 1000000) + 1 \<longrightarrow>
     snd (log2_cols t ! j) ! i =
      Fin (log 2 (cs ! i / (ls ! i / 1000) /
                   ((\<Sum>k<n. cs ! k / (ls ! k / 1000)) / 1000000) + 1)))"
proof -
  let ?S = "\<Sum>k<n. cs ! k / (ls ! k / 1000)"
  define rs where "rs = map2 (\<lambda>c l. c / (l / 1000)) cs ls"
  from numeric_columns_ok obtain counts where counts: "numeric_columns (drop 6 df) = Inr counts"
    using assms(6) by blast
  note nc = numeric_columns_Inr [OF counts]
  have lenc: "length counts = length (drop 6 df)"
    using nc by (metis length_map)
  have cj: "snd (counts ! j) = map Fin cs"
    using nc assms(7,8) by auto
  define rpk where
    "rpk = map (\<lambda>(s, col). (s, div_axis0 col (map (\<lambda>l. fdiv l (Fin 1000)) (map Fin ls)))) counts"
  define tpm where
    "tpm = map2 (\<lambda>(s, col) f. (s, map (\<lambda>v. fdiv v f) col)) rpk (scaling_factors rpk)"
  define lg where
    "lg = map (\<lambda>(s, col). (s, map (\<lambda>v. flog2 (fadd v (Fin 1))) col)) tpm"
  have rpk: "rpk_of df = Inr rpk"
    unfolding rpk_def by (simp add: rpk_of_def assms(3,4) counts)
  have tpm: "tpm_of df = Inr tpm"
    unfolding tpm_def by (rule tpm_of_Inr [OF rpk])
  have lls: "length ls = n"
    using to_numeric_length [OF assms(4)] wf_frame_length [OF assms(1) getitem_mem [OF assms(3)]]
    by simp
  have "drop 6 df ! j \<in> set df"
    using assms(7) by (metis in_set_dropD nth_mem)
  then have "column_length (snd (drop 6 df ! j)) = n"
    using wf_frame_length [OF assms(1), of "fst (drop 6 df ! j)" "snd (drop 6 df ! j)"] by simp
  then have lcs: "length cs = n"
    using to_numeric_length [OF assms(8)] by simp
  have jc: "j < length counts" using assms(7) lenc by simp
  then have j: "j < length rpk" by (simp add: rpk_def)
  have lrs: "length rs = n" using lcs lls by (simp add: rs_def)
  have rsi: "rs ! i = cs ! i / (ls ! i / 1000)"
    using assms(10) lcs lls by (simp add: rs_def)
  have colj: "snd (rpk ! j) = map Fin rs"
  proof -
    have "snd (rpk ! j) = div_axis0 (snd (counts ! j)) (map (\<lambda>l. fdiv l (Fin 1000)) (map Fin ls))"
      using jc unfolding rpk_def by (simp only: nth_map case_prod_unfold snd_conv)
    then show ?thesis
      unfolding rs_def by (simp only: cj div_axis0_finite [OF assms(5)])
  qed
  have sumj: "fsum (snd (rpk ! j)) = Fin ?S"
    unfolding rs_def colj by (simp only: fsum_map_Fin sum_list_map2_nth [OF lcs lls])
  have names: "map fst lg = map fst (drop 6 df)"
  proof -
    have "map fst lg = map fst tpm" unfolding lg_def by (rule column_map_names)
    also have "\<dots> = map fst rpk" unfolding tpm_def by (rule tpm_table_names)
    also have "\<dots> = map fst counts" unfolding rpk_def by (rule column_map_names)
    also have "\<dots> = map fst (drop 6 df)" using nc by simp
    finally show ?thesis .
  qed
  have nog: "''Geneid'' \<notin> set (map fst lg)"
    using assms(6) unfolding names by auto
  have calc: "calculate_log2_tpm df = Inr \<lparr>Geneids = gene_cells gcol, log2_cols = lg\<rparr>"
    using nog unfolding calculate_log2_tpm_def Let_def lg_def
    by (simp only: assms(2) tpm sum.case if_False)
  have tj: "snd (tpm ! j) = map (\<lambda>v. fdiv v (Fin (?S / 1000000))) (map Fin rs)"
  proof -
    have "fsum (map Fin rs) = Fin ?S" using sumj by (simp only: colj)
    then have "fdiv (fsum (map Fin rs)) (Fin 1000000) = Fin (?S / 1000000)" by simp
    then show ?thesis
      unfolding tpm_def by (simp only: tpm_nth [OF j] snd_conv colj)
  qed
  have jt: "j < length tpm" using j by (simp add: tpm_def scaling_factors_def)
  have cell: "snd (tpm ! j) ! i = Fin (rs ! i / (?S / 1000000))"
    using assms(9,10) lrs by (simp add: tj)
  have "snd (lg ! j) = map (\<lambda>v. flog2 (fadd v (Fin 1))) (snd (tpm ! j))"
    unfolding lg_def using jt by (simp only: nth_map case_prod_unfold snd_conv)
  then have "snd (lg ! j) ! i = flog2 (fadd (snd (tpm ! j) ! i) (Fin 1))"
    using assms(10) lrs by (simp add: tj)
  then have v: "snd (lg ! j) ! i = flog2 (Fin (cs ! i / (ls ! i / 1000) / (?S / 1000000) + 1))"
    by (simp only: cell fadd.simps rsi)
  then have "0 < cs ! i / (ls ! i / 1000) / (?S / 1000000) + 1 \<longrightarrow>
     snd (lg ! j) ! i = Fin (log 2 (cs ! i / (ls ! i / 1000) / (?S / 1000000) + 1))"
    by simp
  with calc names v show ?thesis by simp
qed

text \<open>With numeric counts and numeric, nonzero gene lengths the reads-per-kilobase sum of a
  sample column is a finite number, the sum of the quotients.\<close>

lemma rpk_column_sum:
  assumes "wf_frame df n"
    and "getitem df ''Length'' = Inr lcol" and "to_numeric lcol = Inr (map Fin ls)"
    and "\<forall>l \<in> set ls. l \<noteq> 0"
    and "\<forall>c \<in> set (drop 6 df). \<not> isl (to_numeric (snd c))"
    and "j < length (drop 6 df)" and "to_numeric (snd (drop 6 df ! j)) = Inr (map Fin cs)"
  shows "\<exists>rpk. rpk_of df = Inr rpk \<and> j < length rpk \<and>
    fsum (snd (rpk ! j)) = Fin (\<Sum>k<n. cs ! k / (ls ! k / 1000))"
proof -
  from numeric_columns_ok obtain counts where counts: "numeric_columns (drop 6 df) = Inr counts"
    using assms(5) by blast
  note nc = numeric_columns_Inr [OF counts]
  have lenc: "length counts = length (drop 6 df)"
    using nc by (metis length_map)
  have cj: "snd (counts ! j) = map Fin cs"
    using nc assms(6,7) by auto
  define rpk where
    "rpk = map (\<lambda>(s, col). (s, div_axis0 col (map (\<lambda>l. fdiv l (Fin 1000)) (map Fin ls)))) counts"
  have rpk: "rpk_of df = Inr rpk"
    unfolding rpk_def by (simp add: rpk_of_def assms(2,3) counts)
  have lls: "length ls = n"
    using to_numeric_length [OF assms(3)] wf_frame_length [OF assms(1) getitem_mem [OF assms(2)]]
    by simp
  have "drop 6 df ! j \<in> set df"
    using assms(6) by (metis in_set_dropD nth_mem)
  then have "column_length (snd (drop 6 df ! j)) = n"
    using wf_frame_length [OF assms(1), of "fst (drop 6 df ! j)" "snd (drop 6 df ! j)"] by simp
  then have lcs: "length cs = n"
    using to_numeric_length [OF assms(7)] by simp
  have jc: "j < length counts" using assms(6) lenc by simp
  then have j: "j < length rpk" by (simp add: rpk_def)
  have colj: "snd (rpk ! j) = map Fin (map2 (\<lambda>c l. c / (l / 1000)) cs ls)"
  proof -
    have "snd (rpk ! j) = div_axis0 (snd (counts ! j)) (map (\<lambda>l. fdiv l (Fin 1000)) (map Fin ls))"
      using jc unfolding rpk_def by (simp only: nth_map case_prod_unfold snd_conv)
    then show ?thesis
      by (simp only: cj div_axis0_finite [OF assms(4)])
  qed
  have "fsum (snd (rpk ! j)) = Fin (\<Sum>k<n. cs ! k / (ls ! k / 1000))"
    unfolding colj by (simp only: fsum_map_Fin sum_list_map2_nth [OF lcs lls])
  with rpk j show ?thesis by blast
qed

section \<open>Facts about the loops\<close>

lemma set_unique: "set (unique xs) = set xs"
  by (induction xs) auto

lemma distinct_unique: "distinct (unique xs)"
  by (induction xs) auto

lemma unique_Nil_iff: "unique xs = [] \<longleftrightarrow> xs = []"
  by (cases xs) simp_all

lemma add_traces_ok:
  assumes "\<forall>p \<in> set shown. \<not> isl (line_trace sn stats (fst p) (snd p))"
  shows "add_traces sn stats shown data =
     Inr (data @ concat (map (\<lambda>(i, gene). [ribbon_trace sn stats i gene,
                                            projr (line_trace sn stats i gene)]) shown))"
  using assms
proof (induction sn stats shown data rule: add_traces.induct)
  case (1 sn stats data)
  then show ?case by simp
next
  case (2 sn stats i gene rest data)
  from "2.prems" obtain l where l: "line_trace sn stats i gene = Inr l"
    by (cases "line_trace sn stats i gene") auto
  with 2 show ?case by simp
qed

lemma add_traces_Inr:
  assumes "add_traces sn stats shown data = Inr d"
  shows "\<forall>p \<in> set shown. \<not> isl (line_trace sn stats (fst p) (snd p))"
  using assms
proof (induction sn stats shown data rule: add_traces.induct)
  case (1 sn stats data)
  then show ?case by simp
next
  case (2 sn stats i gene rest data)
  then show ?case by (auto split: sum.splits)
qed

lemma line_trace_isl: "isl (line_trace sn stats i gene) \<longleftrightarrow> isl (validate_string sn gene)"
  by (simp add: line_trace_def Let_def split: sum.splits)

lemma length_concat_pairs:
  "length (concat (map (\<lambda>(i, gene). [f i gene, g i gene]) shown)) = 2 * length shown"
  by (induction shown) auto

lemma concat_pairs_nth:
  assumes "i < length shown"
  shows "concat (map (\<lambda>(k, gene). [f k gene, g k gene]) shown) ! (2 * i) =
           f (fst (shown ! i)) (snd (shown ! i)) \<and>
         concat (map (\<lambda>(k, gene). [f k gene, g k gene]) shown) ! (2 * i + 1) =
           g (fst (shown ! i)) (snd (shown ! i))"
  using assms
proof (induction shown arbitrary: i)
  case Nil
  then show ?case by simp
next
  case (Cons p shown)
  show ?case
  proof (cases i)
    case 0
    then show ?thesis by (simp add: case_prod_unfold)
  next
    case (Suc k)
    with Cons.prems have "k < length shown" by simp
    from Cons.IH [OF this] Suc show ?thesis by (simp add: case_prod_unfold)
  qed
qed

lemma make_button_ok:
  assumes "2 * i + 1 < tot"
  shows "make_button sn tot i gene =
     Inr \<lparr>bt_label = gene, bt_method = ''update'',
          bt_visible = (replicate tot False)[2 * i := True, 2 * i + 1 := True],
          bt_title = title_for sn gene\<rparr>"
  using assms by (simp add: make_button_def setitem_def num_traces_per_gene_def Let_def mult.commute)

lemma add_buttons_ok:
  assumes "\<forall>p \<in> set shown. 2 * fst p + 1 < tot"
  shows "add_buttons sn tot shown buttons =
     Inr (buttons @ map (\<lambda>(i, gene). \<lparr>bt_label = gene, bt_method = ''update'',
          bt_visible = (replicate tot False)[2 * i := True, 2 * i + 1 := True],
          bt_title = title_for sn gene\<rparr>) shown)"
  using assms
proof (induction sn tot shown buttons rule: add_buttons.induct)
  case (1 sn tot buttons)
  then show ?case by simp
next
  case (2 sn tot i gene rest buttons)
  then show ?case by (simp add: make_button_ok)
qed

lemma length_shown_genes:
  "length (shown_genes stats) = min (length (unique (map st_Geneid stats))) 200"
  by (simp add: shown_genes_def num_to_show_def min.commute)

lemma shown_genes_nth:
  assumes "i < length (shown_genes stats)"
  shows "shown_genes stats ! i = (i, unique (map st_Geneid stats) ! i)"
  using assms by (simp add: shown_genes_def nth_enumerate_eq)

lemma shown_genes_index_bound:
  assumes "p \<in> set (shown_genes stats)"
  shows "2 * fst p + 1 < 2 * length (shown_genes stats)"
proof -
  from assms obtain i where i: "i < length (shown_genes stats)" "shown_genes stats ! i = p"
    by (auto simp: in_set_conv_nth)
  then have "fst p = i" using shown_genes_nth [of i stats] by auto
  with i show ?thesis by simp
qed

lemma shown_genes_snd: "snd ` set (shown_genes stats) \<subseteq> st_Geneid ` set stats"
proof
  fix g assume "g \<in> snd ` set (shown_genes stats)"
  then obtain p where p: "p \<in> set (shown_genes stats)" "g = snd p" by blast
  then obtain i where i: "i < length (shown_genes stats)" "shown_genes stats ! i = p"
    by (auto simp: in_set_conv_nth)
  then have "g = unique (map st_Geneid stats) ! i"
    using shown_genes_nth [OF i(1)] p(2) by auto
  moreover have "i < length (unique (map st_Geneid stats))"
    using i(1) by (simp add: length_shown_genes)
  ultimately have "g \<in> set (unique (map st_Geneid stats))" by simp
  then show "g \<in> st_Geneid ` set stats" by (simp add: set_unique)
qed

lemma build_figure_ok:
  assumes "stats \<noteq> []"
    and "\<forall>p \<in> set (shown_genes stats). \<not> isl (validate_string sn (snd p))"
  shows "build_figure sn stats =
     Inr \<lparr>fig_data = concat (map (\<lambda>(i, gene). [ribbon_trace sn stats i gene,
                                                 projr (line_trace sn stats i gene)])
                          (shown_genes stats)),
          fig_buttons = map (\<lambda>(i, gene). \<lparr>bt_label = gene, bt_method = ''update'',
              bt_visible = (replicate (2 * length (shown_genes stats)) False)
                             [2 * i := True, 2 * i + 1 := True],
              bt_title = title_for sn gene\<rparr>) (shown_genes stats),
          fig_menu_direction = ''down'', fig_menu_showactive = True,
          fig_menu_x = 1 / 10, fig_menu_y = 12 / 10, fig_menu_pad_t = 10,
          fig_title = title_for sn (hd (unique (map st_Geneid stats))),
          fig_xaxis_title = ''Days (Condition)'',
          fig_yaxis_title = ''log2(TPM + 1)'',
          fig_template = ''plotly_white'',
          fig_hovermode = ''x unified''\<rparr>"
proof -
  have ne: "unique (map st_Geneid stats) \<noteq> []"
    using assms(1) by (simp add: unique_Nil_iff)
  then obtain g gs where u: "unique (map st_Geneid stats) = g # gs"
    by (cases "unique (map st_Geneid stats)") simp_all
  have bound: "\<forall>p \<in> set (shown_genes stats). 2 * fst p + 1 < 2 * length (shown_genes stats)"
    using shown_genes_index_bound by blast
  have b: "add_buttons sn (2 * length (shown_genes stats)) (shown_genes stats) [] =
     Inr (map (\<lambda>(i, gene). \<lparr>bt_label = gene, bt_method = ''update'',
          bt_visible = (replicate (2 * length (shown_genes stats)) False)[2 * i := True, 2 * i + 1 := True],
          bt_title = title_for sn gene\<rparr>) (shown_genes stats))"
    using add_buttons_ok [OF bound, of sn "[]"] by simp
  have v: "\<forall>p \<in> set (shown_genes stats). \<not> isl (line_trace sn stats (fst p) (snd p))"
    using assms(2) by (simp add: line_trace_isl)
  have d: "add_traces sn stats (shown_genes stats) [] =
    Inr (concat (map (\<lambda>(i, gene). [ribbon_trace sn stats i gene,
                                    projr (line_trace sn stats i gene)])
                          (shown_genes stats)))"
    using add_traces_ok [OF v, of "[]"] by simp
  have l: "length (concat (map (\<lambda>(i, gene). [ribbon_trace sn stats i gene,
                                    projr (line_trace sn stats i gene)])
                          (shown_genes stats))) = 2 * length (shown_genes stats)"
    by (rule length_concat_pairs)
  have lab: "\<not> list_ex (\<lambda>b. isl (validate_string sn (bt_label b)))
      (map (\<lambda>(i, gene). \<lparr>bt_label = gene, bt_method = ''update'',
          bt_visible = (replicate (2 * length (shown_genes stats)) False)[2 * i := True, 2 * i + 1 := True],
          bt_title = title_for sn gene\<rparr>) (shown_genes stats))"
    using assms(2) by (auto simp: list_ex_iff)
  show ?thesis
    unfolding build_figure_def Let_def d sum.case l b u list.case using lab by simp
qed

lemma build_figure_empty: "build_figure sn [] = Inl IndexError"
  by (simp add: build_figure_def shown_genes_def)

lemma build_figure_Inr_valid:
  assumes "build_figure sn stats = Inr fig"
  shows "stats \<noteq> []"
    and "\<forall>p \<in> set (shown_genes stats). \<not> isl (validate_string sn (snd p))"
proof -
  show "stats \<noteq> []" using assms build_figure_empty by auto
  from assms obtain d where "add_traces sn stats (shown_genes stats) [] = Inr d"
    by (cases "add_traces sn stats (shown_genes stats) []") (auto simp: build_figure_def Let_def)
  from add_traces_Inr [OF this]
  show "\<forall>p \<in> set (shown_genes stats). \<not> isl (validate_string sn (snd p))"
    by (simp add: line_trace_isl)
qed

lemma build_figure_fields:
  assumes "build_figure sn stats = Inr fig"
  shows "fig_data fig = concat (map (\<lambda>(i, gene). [ribbon_trace sn stats i gene,
                                                 projr (line_trace sn stats i gene)])
                          (shown_genes stats))"
    and "fig_buttons fig = map (\<lambda>(i, gene). \<lparr>bt_label = gene, bt_method = ''update'',
              bt_visible = (replicate (2 * length (shown_genes stats)) False)
                             [2 * i := True, 2 * i + 1 := True],
              bt_title = title_for sn gene\<rparr>) (shown_genes stats)"
    and "fig_title fig = title_for sn (hd (unique (map st_Geneid stats)))"
  using assms build_figure_ok [OF build_figure_Inr_valid [OF assms]] by auto

lemma length_fig_data:
  assumes "build_figure sn stats = Inr fig"
  shows "length (fig_data fig) = 2 * length (shown_genes stats)"
  by (simp only: build_figure_fields(1) [OF assms] length_concat_pairs)

lemma length_fig_buttons:
  assumes "build_figure sn stats = Inr fig"
  shows "length (fig_buttons fig) = length (shown_genes stats)"
  by (simp only: build_figure_fields(2) [OF assms] length_map)

lemma fig_data_nth:
  assumes "build_figure sn stats = Inr fig" and "i < length (shown_genes stats)"
  shows "fig_data fig ! (2 * i) = ribbon_trace sn stats i (unique (map st_Geneid stats) ! i)"
    and "line_trace sn stats i (unique (map st_Geneid stats) ! i) = Inr (fig_data fig ! (2 * i + 1))"
proof -
  let ?g = "unique (map st_Geneid stats) ! i"
  note c = concat_pairs_nth [OF assms(2), of "ribbon_trace sn stats"
      "\<lambda>i gene. projr (line_trace sn stats i gene)"]
  from c shown_genes_nth [OF assms(2)]
  show "fig_data fig ! (2 * i) = ribbon_trace sn stats i ?g"
    by (simp only: build_figure_fields(1) [OF assms(1)] fst_conv snd_conv)
  from c shown_genes_nth [OF assms(2)]
  have "fig_data fig ! (2 * i + 1) = projr (line_trace sn stats i ?g)"
    by (simp only: build_figure_fields(1) [OF assms(1)] fst_conv snd_conv)
  moreover have "(i, ?g) \<in> set (shown_genes stats)"
    using assms(2) shown_genes_nth [OF assms(2)] by (metis nth_mem)
  then have "\<not> isl (line_trace sn stats i ?g)"
    using build_figure_Inr_valid(2) [OF assms(1)] by (auto simp: line_trace_isl)
  ultimately show "line_trace sn stats i ?g = Inr (fig_data fig ! (2 * i + 1))"
    by simp
qed

lemma fig_buttons_nth:
  assumes "build_figure sn stats = Inr fig" and "i < length (shown_genes stats)"
  shows "fig_buttons fig ! i =
     \<lparr>bt_label = unique (map st_Geneid stats) ! i, bt_method = ''update'',
      bt_visible = (replicate (2 * length (shown_genes stats)) False)
                     [2 * i := True, 2 * i + 1 := True],
      bt_title = title_for sn (unique (map st_Geneid stats) ! i)\<rparr>"
  using assms(2) shown_genes_nth [OF assms(2)]
  by (simp add: build_figure_fields(2) [OF assms(1)])

lemma line_trace_Inr:
  assumes "line_trace sn stats i gene = Inr l"
  shows "tr_x l = map st_Condition (gene_stats_of stats gene)"
    and "tr_y l = map st_mean (gene_stats_of stats gene)"
    and "tr_visible l \<longleftrightarrow> i = 0"
    and "validate_string sn gene = Inr (tr_name l)"
  using assms by (auto simp: line_trace_def Let_def split: sum.splits)

lemma visibility_nth:
  assumes "j < n"
  shows "(replicate n False)[a := True, b := True] ! j \<longleftrightarrow> (j = a \<or> j = b)"
proof (cases "j = b")
  case True
  with assms show ?thesis by simp
next
  case False
  then have "(replicate n False)[a := True, b := True] ! j = (replicate n False)[a := True] ! j"
    by simp
  also have "\<dots> \<longleftrightarrow> j = a"
    using assms by (cases "j = a") simp_all
  finally show ?thesis using False by simp
qed

text \<open>
  Claim C5. For every gene index \<open>i\<close> among the genes included in the dashboard, the
  visibility array of button \<open>i\<close> is as long as the figure has traces and is true
  exactly at the indices \<open>2 * i\<close> and \<open>2 * i + 1\<close>, which hold the ribbon trace and the
  mean-line trace of the gene the button is labelled with.
\<close>

theorem dropdown_visibility:
  assumes "build_figure sn stats = Inr fig" and "i < length (fig_buttons fig)"
  shows "length (bt_visible (fig_buttons fig ! i)) = length (fig_data fig) \<and>
    (\<forall>j < length (fig_data fig).
       bt_visible (fig_buttons fig ! i) ! j \<longleftrightarrow> (j = 2 * i \<or> j = 2 * i + 1)) \<and>
    bt_label (fig_buttons fig ! i) = unique (map st_Geneid stats) ! i \<and>
    fig_data fig ! (2 * i) = ribbon_trace sn stats i (bt_label (fig_buttons fig ! i)) \<and>
    line_trace sn stats i (bt_label (fig_buttons fig ! i)) = Inr (fig_data fig ! (2 * i + 1))"
proof -
  have i: "i < length (shown_genes stats)"
    using assms(2) by (simp only: length_fig_buttons [OF assms(1)])
  note b = fig_buttons_nth [OF assms(1) i]
  note n = length_fig_data [OF assms(1)]
  have vis: "bt_visible (fig_buttons fig ! i) =
      (replicate (2 * length (shown_genes stats)) False)[2 * i := True, 2 * i + 1 := True]"
    by (simp add: b)
  have lab: "bt_label (fig_buttons fig ! i) = unique (map st_Geneid stats) ! i"
    by (simp add: b)
  have "\<forall>j < 2 * length (shown_genes stats).
      ((replicate (2 * length (shown_genes stats)) False)[2 * i := True, 2 * i + 1 := True]) ! j
        \<longleftrightarrow> (j = 2 * i \<or> j = 2 * i + 1)"
    using visibility_nth by blast
  then show ?thesis
    using fig_data_nth [OF assms(1) i] by (simp add: vis lab n)
qed

text \<open>
  Claim C9, as the code has it. The dashboard shows the first 200 distinct genes of the
  sorted statistics table, in order of first appearance; gene \<open>i\<close> contributes the
  ribbon trace at index \<open>2 * i\<close> and the mean-line trace at index \<open>2 * i + 1\<close>, so
  the figure has \<open>2 * min n 200\<close> traces; it has one dropdown button per shown gene,
  that is \<open>min n 200\<close> buttons; only the first gene's two traces are visible at first.
\<close>

theorem traces_and_buttons_count:
  assumes "build_figure sn stats = Inr fig"
  shows "length (fig_data fig) = 2 * min (length (unique (map st_Geneid stats))) 200 \<and>
    length (fig_buttons fig) = min (length (unique (map st_Geneid stats))) 200 \<and>
    (\<forall>i < min (length (unique (map st_Geneid stats))) 200.
       fig_data fig ! (2 * i) = ribbon_trace sn stats i (unique (map st_Geneid stats) ! i) \<and>
       line_trace sn stats i (unique (map st_Geneid stats) ! i) = Inr (fig_data fig ! (2 * i + 1)) \<and>
       bt_label (fig_buttons fig ! i) = unique (map st_Geneid stats) ! i \<and>
       (tr_visible (fig_data fig ! (2 * i)) \<longleftrightarrow> i = 0) \<and>
       (tr_visible (fig_data fig ! (2 * i + 1)) \<longleftrightarrow> i = 0))"
proof -
  have "\<forall>i < length (shown_genes stats).
       fig_data fig ! (2 * i) = ribbon_trace sn stats i (unique (map st_Geneid stats) ! i) \<and>
       line_trace sn stats i (unique (map st_Geneid stats) ! i) = Inr (fig_data fig ! (2 * i + 1)) \<and>
       bt_label (fig_buttons fig ! i) = unique (map st_Geneid stats) ! i \<and>
       (tr_visible (fig_data fig ! (2 * i)) \<longleftrightarrow> i = 0) \<and>
       (tr_visible (fig_data fig ! (2 * i + 1)) \<longleftrightarrow> i = 0)"
  proof (intro allI impI)
    fix i assume i: "i < length (shown_genes stats)"
    note d = fig_data_nth [OF assms i]
    have "tr_visible (fig_data fig ! (2 * i)) \<longleftrightarrow> i = 0"
      by (simp only: d(1)) (simp add: ribbon_trace_def Let_def)
    moreover have "tr_visible (fig_data fig ! (2 * i + 1)) \<longleftrightarrow> i = 0"
      by (rule line_trace_Inr(3) [OF d(2)])
    moreover have "bt_label (fig_buttons fig ! i) = unique (map st_Geneid stats) ! i"
      by (simp add: fig_buttons_nth [OF assms i])
    ultimately show "fig_data fig ! (2 * i) = ribbon_trace sn stats i (unique (map st_Geneid stats) ! i) \<and>
       line_trace sn stats i (unique (map st_Geneid stats) ! i) = Inr (fig_data fig ! (2 * i + 1)) \<and>
       bt_label (fig_buttons fig ! i) = unique (map st_Geneid stats) ! i \<and>
       (tr_visible (fig_data fig ! (2 * i)) \<longleftrightarrow> i = 0) \<and>
       (tr_visible (fig_data fig ! (2 * i + 1)) \<longleftrightarrow> i = 0)"
      using d by blast
  qed
  then show ?thesis
    unfolding length_fig_data [OF assms] length_fig_buttons [OF assms] length_shown_genes
    by blast
qed

lemma astype_int_Inr:
  assumes "astype_int c = Inr d"
  shows "d = day_of c \<and> extract_digits c \<noteq> [] \<and> day_of c < 2 ^ 63"
  using assms by (auto simp: astype_int_def split: if_splits)

lemma with_day_rows:
  assumes "with_day rs = Inr ds"
  shows "list_all (\<lambda>r. Day r = day_of (st_Condition r) \<and> extract_digits (st_Condition r) \<noteq> []) ds"
  using assms
proof (induction rs arbitrary: ds)
  case Nil
  then show ?case by simp
next
  case (Cons r rs)
  then show ?case
    by (auto split: sum.splits dest: astype_int_Inr)
qed

lemma with_day_columns:
  assumes "with_day rs = Inr ds"
  shows "map st_Geneid ds = map st_Geneid rs \<and> map st_Condition ds = map st_Condition rs \<and>
         map st_mean ds = map st_mean rs \<and> map st_std ds = map st_std rs"
  using assms
proof (induction rs arbitrary: ds)
  case Nil
  then show ?case by simp
next
  case (Cons r rs)
  then show ?case
    by (auto split: sum.splits)
qed

lemma with_day_ok:
  assumes "list_all (\<lambda>r. extract_digits (st_Condition r) \<noteq> [] \<and> day_of (st_Condition r) < 2 ^ 63) rs"
  shows "\<exists>ds. with_day rs = Inr ds"
  using assms
proof (induction rs)
  case Nil
  then show ?case by simp
next
  case (Cons r rs)
  then show ?case
    by (auto simp: astype_int_def)
qed

lemma set_sort_values: "set (sort_values ds) = set ds"
  by (simp add: sort_values_def)

lemma sorted_sort_values: "sorted (map (\<lambda>r. (gid_key (st_Geneid r), Day r)) (sort_values ds))"
  by (simp add: sort_values_def)

lemma sorted_same_gene:
  assumes "sorted (map (\<lambda>r. (gid_key (st_Geneid r), Day r)) rs)" and "\<forall>r \<in> set rs. st_Geneid r = g"
  shows "sorted (map Day rs)"
  using assms
  by (induction rs) (auto simp: less_eq_prod_def)

lemma gene_stats_sorted: "sorted (map Day (gene_stats_of (sort_values ds) g))"
proof -
  have "sorted (map (\<lambda>r. (gid_key (st_Geneid r), Day r)) (gene_stats_of (sort_values ds) g))"
    unfolding gene_stats_of_def by (rule sorted_filter) (rule sorted_sort_values)
  moreover have "\<forall>r \<in> set (gene_stats_of (sort_values ds) g). st_Geneid r = g"
    by (simp add: gene_stats_of_def)
  ultimately show ?thesis
    by (rule sorted_same_gene)
qed

lemma aggregate_stats_Inr:
  assumes "aggregate_stats plot_data = Inr stats"
  shows "\<exists>ds. with_day (groupby_agg plot_data) = Inr ds \<and> stats = sort_values ds"
  using assms by (auto simp: aggregate_stats_def split: sum.splits)

lemma aggregate_stats_days:
  assumes "aggregate_stats plot_data = Inr stats" and "r \<in> set stats"
  shows "Day r = day_of (st_Condition r) \<and> extract_digits (st_Condition r) \<noteq> []"
proof -
  from aggregate_stats_Inr [OF assms(1)] obtain ds
    where ds: "with_day (groupby_agg plot_data) = Inr ds" "stats = sort_values ds" by blast
  from assms(2) ds(2) have "r \<in> set ds" by (simp add: set_sort_values)
  with with_day_rows [OF ds(1)] show ?thesis by (auto simp: list_all_iff)
qed

lemma gene_conditions_sorted:
  assumes "aggregate_stats plot_data = Inr stats"
  shows "sorted (map day_of (map st_Condition (gene_stats_of stats g)))"
proof -
  from aggregate_stats_Inr [OF assms] obtain ds where ds: "stats = sort_values ds" by blast
  have "map day_of (map st_Condition (gene_stats_of stats g)) = map Day (gene_stats_of stats g)"
    using aggregate_stats_days [OF assms] by (simp add: gene_stats_of_def)
  moreover have "sorted (map Day (gene_stats_of stats g))"
    unfolding ds by (rule gene_stats_sorted)
  ultimately show ?thesis
    by (simp only:)
qed

text \<open>
  Claim C6, as the code has it. Once the statistics table is built (every condition name
  then holds a run of digits), the mean-line trace of every shown gene lists its
  conditions in ascending order of the integer read from the name; the ribbon trace
  lists that ascending sequence followed by its reverse, closing the band.
\<close>

theorem conditions_ascending:
  assumes "aggregate_stats plot_data = Inr stats" and "build_figure sn stats = Inr fig"
    and "i < length (fig_buttons fig)"
  shows "sorted (map day_of (tr_x (fig_data fig ! (2 * i + 1)))) \<and>
    list_all (\<lambda>c. extract_digits c \<noteq> []) (tr_x (fig_data fig ! (2 * i + 1))) \<and>
    tr_x (fig_data fig ! (2 * i)) =
      tr_x (fig_data fig ! (2 * i + 1)) @ rev (tr_x (fig_data fig ! (2 * i + 1)))"
proof -
  let ?g = "unique (map st_Geneid stats) ! i"
  have i: "i < length (shown_genes stats)"
    using assms(3) by (simp only: length_fig_buttons [OF assms(2)])
  have l: "tr_x (fig_data fig ! (2 * i + 1)) = map st_Condition (gene_stats_of stats ?g)"
    by (rule line_trace_Inr(1) [OF fig_data_nth(2) [OF assms(2) i]])
  have r: "tr_x (fig_data fig ! (2 * i)) =
      map st_Condition (gene_stats_of stats ?g) @ rev (map st_Condition (gene_stats_of stats ?g))"
    by (simp only: fig_data_nth(1) [OF assms(2) i]) (simp add: ribbon_trace_def Let_def)
  have d: "list_all (\<lambda>c. extract_digits c \<noteq> []) (map st_Condition (gene_stats_of stats ?g))"
    using aggregate_stats_days [OF assms(1)] by (simp add: list_all_iff gene_stats_of_def)
  show ?thesis
    unfolding l r using gene_conditions_sorted [OF assms(1)] d by simp
qed

section \<open>Aggregation by condition\<close>

lemma column_group_values:
  "map pr_log2TPM (filter (\<lambda>r. pr_Geneid r = Some g \<and> pr_Condition r = c)
     (map (\<lambda>(g', s', v). \<lparr>pr_Geneid = g', pr_Sample = s', pr_log2TPM = v,
                            pr_Condition = split_first s'\<rparr>)
          (map2 (\<lambda>g' v. (g', s, v)) genes col))) =
   (if split_first s = c then map snd (filter (\<lambda>(g', v). g' = Some g) (zip genes col)) else [])"
  by (induction genes col rule: list_induct2') auto

lemma plot_data_of_Inr:
  assumes "plot_data_of t = Inr rows"
  shows "rows = map (\<lambda>(g, s, v). \<lparr>pr_Geneid = g, pr_Sample = s, pr_log2TPM = v,
                                   pr_Condition = split_first s\<rparr>)
                (concat (map (\<lambda>(s, col). map2 (\<lambda>g v. (g, s, v)) (Geneids t) col) (log2_cols t)))"
    and "''log2TPM'' \<notin> set (map fst (log2_cols t))"
  using assms by (auto simp: plot_data_of_def melt_def split: if_splits)

lemma plot_data_of_ok:
  assumes "''log2TPM'' \<notin> set (map fst (log2_cols t))"
  shows "\<exists>rows. plot_data_of t = Inr rows"
  using assms by (simp add: plot_data_of_def melt_def)

lemma group_values_condition_values:
  assumes "plot_data_of t = Inr rows"
  shows "group_values rows (g, c) = condition_values t g c"
proof -
  have "map pr_log2TPM (filter (\<lambda>r. pr_Geneid r = Some g \<and> pr_Condition r = c)
     (map (\<lambda>(g', s', v). \<lparr>pr_Geneid = g', pr_Sample = s', pr_log2TPM = v,
                            pr_Condition = split_first s'\<rparr>)
          (concat (map (\<lambda>(s, col). map2 (\<lambda>g' v. (g', s, v)) genes col) cols)))) =
     concat (map (\<lambda>(s, col). map snd (filter (\<lambda>(g', v). g' = Some g) (zip genes col)))
                 (filter (\<lambda>(s, col). split_first s = c) cols))" for genes cols
  proof (induction cols)
    case Nil
    then show ?case by simp
  next
    case (Cons p cols)
    obtain s col where p: "p = (s, col)" by (cases p)
    show ?case
      using Cons.IH column_group_values [of g c s genes col] by (simp add: p)
  qed
  then show ?thesis
    by (simp add: group_values_def plot_data_of_Inr(1) [OF assms] condition_values_def)
qed

lemma set_group_keys:
  "set (group_keys rows) = {(g, pr_Condition r) | g r. r \<in> set rows \<and> pr_Geneid r = Some g}"
  by (auto simp: group_keys_def split: option.splits)

lemma distinct_group_keys: "distinct (group_keys rows)"
  by (simp add: group_keys_def)

lemma groupby_agg_keys:
  "map (\<lambda>r. (st_Geneid r, st_Condition r)) (groupby_agg rows) = group_keys rows"
  by (simp add: groupby_agg_def comp_def case_prod_unfold)

lemma groupby_agg_row:
  assumes "r \<in> set (groupby_agg rows)"
  shows "st_mean r = mean_of (group_values rows (st_Geneid r, st_Condition r)) \<and>
         st_std r = std_of (group_values rows (st_Geneid r, st_Condition r))"
  using assms by (auto simp: groupby_agg_def)

lemma group_values_nonempty:
  "group_values rows k \<noteq> [] \<longleftrightarrow> k \<in> set (group_keys rows)"
proof -
  obtain g c where k: "k = (g, c)" by (cases k)
  show ?thesis
    unfolding k by (auto simp: group_values_def set_group_keys filter_empty_conv)
qed

lemma with_day_keys:
  assumes "with_day rs = Inr ds"
  shows "map (\<lambda>r. (st_Geneid r, st_Condition r)) ds = map (\<lambda>r. (st_Geneid r, st_Condition r)) rs"
  using assms
proof (induction rs arbitrary: ds)
  case Nil
  then show ?case by simp
next
  case (Cons r rs)
  then show ?case by (auto split: sum.splits)
qed

lemma with_day_mem:
  assumes "with_day rs = Inr ds" and "d \<in> set ds"
  shows "\<exists>r \<in> set rs. st_Geneid d = st_Geneid r \<and> st_Condition d = st_Condition r \<and>
           st_mean d = st_mean r \<and> st_std d = st_std r"
  using assms
proof (induction rs arbitrary: ds)
  case Nil
  then show ?case by simp
next
  case (Cons r rs)
  then show ?case by (auto split: sum.splits)
qed

lemma distinct_map_sort_values:
  "distinct (map k (sort_values ds)) \<longleftrightarrow> distinct (map k ds)"
  by (simp add: distinct_map sort_values_def)

lemma aggregate_stats_keys:
  assumes "aggregate_stats rows = Inr stats"
  shows "distinct (map (\<lambda>r. (st_Geneid r, st_Condition r)) stats)"
    and "(\<lambda>r. (st_Geneid r, st_Condition r)) ` set stats = set (group_keys rows)"
proof -
  from aggregate_stats_Inr [OF assms] obtain ds
    where ds: "with_day (groupby_agg rows) = Inr ds" "stats = sort_values ds" by blast
  have k: "map (\<lambda>r. (st_Geneid r, st_Condition r)) ds = group_keys rows"
    using with_day_keys [OF ds(1)] by (simp only: groupby_agg_keys)
  show "distinct (map (\<lambda>r. (st_Geneid r, st_Condition r)) stats)"
    unfolding ds(2) distinct_map_sort_values k by (rule distinct_group_keys)
  have "(\<lambda>r. (st_Geneid r, st_Condition r)) ` set stats =
      set (map (\<lambda>r. (st_Geneid r, st_Condition r)) ds)"
    by (simp add: ds(2) set_sort_values)
  then show "(\<lambda>r. (st_Geneid r, st_Condition r)) ` set stats = set (group_keys rows)"
    by (simp only: k)
qed

lemma aggregate_stats_row:
  assumes "aggregate_stats rows = Inr stats" and "r \<in> set stats"
  shows "st_mean r = mean_of (group_values rows (st_Geneid r, st_Condition r)) \<and>
         st_std r = std_of (group_values rows (st_Geneid r, st_Condition r))"
proof -
  from aggregate_stats_Inr [OF assms(1)] obtain ds
    where ds: "with_day (groupby_agg rows) = Inr ds" "stats = sort_values ds" by blast
  from assms(2) ds(2) have "r \<in> set ds" by (simp add: set_sort_values)
  from with_day_mem [OF ds(1) this] obtain r0 where r0: "r0 \<in> set (groupby_agg rows)"
    "st_Geneid r = st_Geneid r0" "st_Condition r = st_Condition r0"
    "st_mean r = st_mean r0" "st_std r = st_std r0" by blast
  from groupby_agg_row [OF r0(1)] show ?thesis
    by (simp add: r0)
qed

lemma dropna_no_NaN: "NaN \<notin> set (dropna vs)"
  by (simp add: dropna_def)

lemma finite_cells:
  assumes "NaN \<notin> set xs" and "\<not> list_ex is_inf xs"
  shows "xs = map Fin (reals_of xs)"
  using assms
proof (induction xs)
  case Nil
  then show ?case by simp
next
  case (Cons v xs)
  then show ?case by (cases v) (simp_all add: is_inf_def)
qed

lemma mean_of_finite:
  assumes "\<not> list_ex is_inf (dropna vs)"
  shows "mean_of vs =
    (if dropna vs = [] then NaN
     else Fin (sum_list (reals_of (dropna vs)) / real (length (dropna vs))))"
proof (cases "dropna vs = []")
  case True
  then show ?thesis by (simp add: mean_of_def)
next
  case False
  have "fsum (dropna vs) = Fin (sum_list (reals_of (dropna vs)))"
    by (rule fsum_finite [OF assms])
  with False show ?thesis by (simp add: mean_of_def Let_def)
qed

lemma std_of_finite:
  assumes "\<not> list_ex is_inf (dropna vs)"
  shows "std_of vs =
    (if length (dropna vs) < 2 then NaN
     else Fin (sqrt (sum_list (map (\<lambda>x. (x - sum_list (reals_of (dropna vs))
                                               / real (length (dropna vs)))\<^sup>2)
                                   (reals_of (dropna vs)))
                     / real (length (dropna vs) - 1))))"
proof -
  have "length (reals_of (dropna vs)) = length (dropna vs)"
    using arg_cong [OF finite_cells [OF dropna_no_NaN assms], of length] by simp
  then show ?thesis
    using assms by (simp add: std_of_def Let_def)
qed

text \<open>
  Claim C4, as the code has it. The statistics table has exactly one row for every gene
  identifier and condition that has cells in the sample columns whose name prefix before
  the first underscore is that condition. The row holds the arithmetic mean and the
  sample standard deviation (divisor \<open>n - 1\<close>) of those of the cells that hold a value:
  a cell that is \<^verbatim>\<open>NaN\<close>, as every cell of a sample without reads is, is left out
  of both, and the result is \<^verbatim>\<open>NaN\<close> when no value is left for the mean or fewer
  than two for the deviation. The formulas are stated for finite values.
\<close>

theorem aggregated_statistics:
  assumes "plot_data_of t = Inr rows" and "aggregate_stats rows = Inr stats"
  shows "distinct (map (\<lambda>r. (st_Geneid r, st_Condition r)) stats) \<and>
    (\<forall>g c. (\<exists>r \<in> set stats. st_Geneid r = g \<and> st_Condition r = c)
              \<longleftrightarrow> condition_values t g c \<noteq> []) \<and>
    (\<forall>r \<in> set stats.
       let vs = dropna (condition_values t (st_Geneid r) (st_Condition r))
       in \<not> list_ex is_inf vs \<longrightarrow>
          st_mean r =
            (if vs = [] then NaN else Fin (sum_list (reals_of vs) / real (length vs))) \<and>
          st_std r =
            (if length vs < 2 then NaN
             else Fin (sqrt (sum_list (map (\<lambda>x. (x - sum_list (reals_of vs) / real (length vs))\<^sup>2)
                                           (reals_of vs))
                             / real (length vs - 1)))))"
proof -
  have "(\<exists>r \<in> set stats. st_Geneid r = g \<and> st_Condition r = c)
          \<longleftrightarrow> condition_values t g c \<noteq> []" for g c
  proof -
    have "(\<exists>r \<in> set stats. st_Geneid r = g \<and> st_Condition r = c) \<longleftrightarrow>
        (g, c) \<in> (\<lambda>r. (st_Geneid r, st_Condition r)) ` set stats"
      by auto
    also have "\<dots> \<longleftrightarrow> group_values rows (g, c) \<noteq> []"
      by (simp only: aggregate_stats_keys(2) [OF assms(2)] group_values_nonempty)
    finally show ?thesis
      by (simp only: group_values_condition_values [OF assms(1)])
  qed
  moreover have "\<forall>r \<in> set stats.
       let vs = dropna (condition_values t (st_Geneid r) (st_Condition r))
       in \<not> list_ex is_inf vs \<longrightarrow>
          st_mean r =
            (if vs = [] then NaN else Fin (sum_list (reals_of vs) / real (length vs))) \<and>
          st_std r =
            (if length vs < 2 then NaN
             else Fin (sqrt (sum_list (map (\<lambda>x. (x - sum_list (reals_of vs) / real (length vs))\<^sup>2)
                                           (reals_of vs))
                             / real (length vs - 1))))"
    using aggregate_stats_row [OF assms(2)] mean_of_finite std_of_finite
    by (simp add: group_values_condition_values [OF assms(1)] Let_def)
  ultimately show ?thesis
    using aggregate_stats_keys(1) [OF assms(2)] by blast
qed

section \<open>The whole run\<close>

lemma length_div_axis0: "length (div_axis0 col d) = min (length col) (length d)"
  by (simp add: div_axis0_def)

lemma calculate_log2_tpm_ok:
  assumes "wf_frame df n"
    and "getitem df ''Geneid'' = Inr gcol"
    and "getitem df ''Length'' = Inr lcol" and "to_numeric lcol = Inr ls"
    and "\<forall>c \<in> set (drop 6 df). fst c \<noteq> ''Geneid'' \<and> \<not> isl (to_numeric (snd c))"
  shows "\<exists>t. calculate_log2_tpm df = Inr t \<and> Geneids t = gene_cells gcol \<and>
    map fst (log2_cols t) = map fst (drop 6 df) \<and>
    (\<forall>c \<in> set (log2_cols t). length (snd c) = n)"
proof -
  from numeric_columns_ok obtain counts where counts: "numeric_columns (drop 6 df) = Inr counts"
    using assms(5) by blast
  note nc = numeric_columns_Inr [OF counts]
  have lenc: "length counts = length (drop 6 df)"
    using nc by (metis length_map)
  define kb where "kb = map (\<lambda>l. fdiv l (Fin 1000)) ls"
  define rpk where "rpk = map (\<lambda>(s, col). (s, div_axis0 col kb)) counts"
  define tpm where
    "tpm = map2 (\<lambda>(s, col) f. (s, map (\<lambda>v. fdiv v f) col)) rpk (scaling_factors rpk)"
  define lg where
    "lg = map (\<lambda>(s, col). (s, map (\<lambda>v. flog2 (fadd v (Fin 1))) col)) tpm"
  have rpk: "rpk_of df = Inr rpk"
    unfolding rpk_def kb_def by (simp add: rpk_of_def assms(3,4) counts)
  have tpm: "tpm_of df = Inr tpm"
    unfolding tpm_def by (rule tpm_of_Inr [OF rpk])
  have lkb: "length kb = n"
    using to_numeric_length [OF assms(4)] wf_frame_length [OF assms(1) getitem_mem [OF assms(3)]]
    by (simp add: kb_def)
  have lcount: "length (snd (counts ! k)) = n" if "k < length counts" for k
  proof -
    have k: "k < length (drop 6 df)" using that lenc by simp
    then have "drop 6 df ! k \<in> set df" by (metis in_set_dropD nth_mem)
    then have "column_length (snd (drop 6 df ! k)) = n"
      using wf_frame_length [OF assms(1), of "fst (drop 6 df ! k)" "snd (drop 6 df ! k)"] by simp
    moreover have "to_numeric (snd (drop 6 df ! k)) = Inr (snd (counts ! k))"
      using nc k by simp
    ultimately show ?thesis using to_numeric_length by metis
  qed
  have lrpk: "length rpk = length counts" by (simp add: rpk_def)
  have ltpm: "length tpm = length counts" by (simp add: tpm_def scaling_factors_def lrpk)
  have llg: "length lg = length counts" by (simp add: lg_def ltpm)
  have crpk: "length (snd (rpk ! k)) = n" if "k < length counts" for k
  proof -
    have "snd (rpk ! k) = div_axis0 (snd (counts ! k)) kb"
      using that unfolding rpk_def by (simp only: nth_map case_prod_unfold snd_conv)
    then show ?thesis using lcount [OF that] lkb by (simp add: length_div_axis0)
  qed
  have ctpm: "length (snd (tpm ! k)) = n" if "k < length counts" for k
  proof -
    have k: "k < length rpk" using that lrpk by simp
    show ?thesis
      unfolding tpm_def using crpk [OF that] by (simp only: tpm_nth [OF k] snd_conv length_map)
  qed
  have clg: "length (snd (lg ! k)) = n" if "k < length counts" for k
  proof -
    have "snd (lg ! k) = map (\<lambda>v. flog2 (fadd v (Fin 1))) (snd (tpm ! k))"
      using that ltpm unfolding lg_def by (simp only: nth_map case_prod_unfold snd_conv)
    then show ?thesis using ctpm [OF that] by simp
  qed
  have lens: "\<forall>c \<in> set lg. length (snd c) = n"
  proof
    fix c assume "c \<in> set lg"
    then obtain k where "k < length lg" "lg ! k = c" by (auto simp: in_set_conv_nth)
    with clg [of k] llg show "length (snd c) = n" by auto
  qed
  have names: "map fst lg = map fst (drop 6 df)"
  proof -
    have "map fst lg = map fst tpm" unfolding lg_def by (rule column_map_names)
    also have "\<dots> = map fst rpk" unfolding tpm_def by (rule tpm_table_names)
    also have "\<dots> = map fst counts" unfolding rpk_def by (rule column_map_names)
    also have "\<dots> = map fst (drop 6 df)" using nc by simp
    finally show ?thesis .
  qed
  have nog: "''Geneid'' \<notin> set (map fst lg)"
    using assms(5) unfolding names by auto
  have calc: "calculate_log2_tpm df = Inr \<lparr>Geneids = gene_cells gcol, log2_cols = lg\<rparr>"
    using nog unfolding calculate_log2_tpm_def Let_def lg_def
    by (simp only: assms(2) tpm sum.case if_False)
  with names lens show ?thesis by simp
qed

lemma in_map2_row:
  assumes "x \<in> set (map2 (\<lambda>g v. (g, s, v)) genes col)"
  shows "fst x \<in> set genes \<and> fst (snd x) = s"
proof -
  from assms obtain p where p: "p \<in> set (zip genes col)" "x = (fst p, s, snd p)"
    by (auto simp: case_prod_unfold)
  from p(1) have "fst p \<in> set genes" by (metis set_zip_leftD prod.collapse)
  with p(2) show ?thesis by simp
qed

lemma melt_row:
  assumes "x \<in> set (concat (map (\<lambda>(s, col). map2 (\<lambda>g v. (g, s, v)) genes col) cols))"
  shows "fst x \<in> set genes \<and> fst (snd x) \<in> set (map fst cols)"
  using assms
proof (induction cols)
  case Nil
  then show ?case by simp
next
  case (Cons c cols)
  obtain s col where c: "c = (s, col)" by (cases c)
  from Cons.prems have "x \<in> set (map2 (\<lambda>g v. (g, s, v)) genes col) \<or>
      x \<in> set (concat (map (\<lambda>(s, col). map2 (\<lambda>g v. (g, s, v)) genes col) cols))"
    by (simp add: c)
  then show ?case
  proof
    assume "x \<in> set (map2 (\<lambda>g v. (g, s, v)) genes col)"
    from in_map2_row [OF this] show ?thesis by (simp add: c)
  next
    assume "x \<in> set (concat (map (\<lambda>(s, col). map2 (\<lambda>g v. (g, s, v)) genes col) cols))"
    from Cons.IH [OF this] show ?thesis by simp
  qed
qed

lemma plot_data_genes:
  assumes "plot_data_of t = Inr rows" and "r \<in> set rows"
  shows "pr_Geneid r \<in> set (Geneids t)"
    and "pr_Condition r \<in> split_first ` set (map fst (log2_cols t))"
proof -
  let ?F = "\<lambda>(g, s, v). \<lparr>pr_Geneid = g, pr_Sample = s, pr_log2TPM = v,
                          pr_Condition = split_first s\<rparr>"
  let ?X = "concat (map (\<lambda>(s, col). map2 (\<lambda>g v. (g, s, v)) (Geneids t) col) (log2_cols t))"
  from assms(2) have "r \<in> ?F ` set ?X"
    by (simp only: plot_data_of_Inr(1) [OF assms(1)] set_map)
  then obtain x where x: "x \<in> set ?X" "r = ?F x" by (rule imageE)
  from melt_row [OF x(1)] x(2)
  show "pr_Geneid r \<in> set (Geneids t)"
    and "pr_Condition r \<in> split_first ` set (map fst (log2_cols t))"
    by (auto simp: case_prod_unfold)
qed

lemma plot_data_has_gene:
  assumes "plot_data_of t = Inr rows" and "Some g \<in> set (Geneids t)"
    and "log2_cols t \<noteq> []" and "\<forall>c \<in> set (log2_cols t). length (snd c) = length (Geneids t)"
  shows "\<exists>r \<in> set rows. pr_Geneid r = Some g"
proof -
  obtain s col cols where c: "log2_cols t = (s, col) # cols"
    using assms(3) by (cases "log2_cols t") auto
  with assms(4) have l: "length col = length (Geneids t)" by simp
  from assms(2) obtain i where i: "i < length (Geneids t)" "Geneids t ! i = Some g"
    by (auto simp: in_set_conv_nth)
  then have "(Some g, col ! i) \<in> set (zip (Geneids t) col)"
    using l by (metis in_set_zip fst_conv snd_conv)
  then have "(Some g, s, col ! i) \<in> set (map2 (\<lambda>g v. (g, s, v)) (Geneids t) col)"
    by force
  then have "\<lparr>pr_Geneid = Some g, pr_Sample = s, pr_log2TPM = col ! i,
      pr_Condition = split_first s\<rparr> \<in> set rows"
    unfolding plot_data_of_Inr(1) [OF assms(1)] c by force
  then show ?thesis by force
qed

lemma groupby_agg_conditions:
  assumes "r \<in> set (groupby_agg rows)"
  shows "\<exists>p \<in> set rows. pr_Geneid p = Some (st_Geneid r) \<and> pr_Condition p = st_Condition r"
proof -
  from assms have "(st_Geneid r, st_Condition r) \<in> set (map (\<lambda>r. (st_Geneid r, st_Condition r)) (groupby_agg rows))"
    by simp
  then have "(st_Geneid r, st_Condition r) \<in> set (group_keys rows)"
    by (simp only: groupby_agg_keys)
  then show ?thesis
    by (auto simp: set_group_keys)
qed

lemma groupby_agg_nonempty:
  "groupby_agg rows = [] \<longleftrightarrow> (\<forall>r \<in> set rows. pr_Geneid r = None)"
proof -
  have "groupby_agg rows = [] \<longleftrightarrow> group_keys rows = []"
    by (simp add: groupby_agg_def)
  also have "\<dots> \<longleftrightarrow> set (group_keys rows) = {}"
    by (simp only: set_empty)
  also have "\<dots> \<longleftrightarrow> (\<forall>r \<in> set rows. pr_Geneid r = None)"
    unfolding set_group_keys by (auto, metis option.exhaust)
  finally show ?thesis .
qed

lemma aggregate_stats_ok:
  assumes "\<forall>r \<in> set rows. extract_digits (pr_Condition r) \<noteq> [] \<and> day_of (pr_Condition r) < 2 ^ 63"
  shows "\<exists>stats. aggregate_stats rows = Inr stats \<and>
           (stats = [] \<longleftrightarrow> (\<forall>r \<in> set rows. pr_Geneid r = None)) \<and>
           (\<forall>d \<in> set stats. Some (st_Geneid d) \<in> pr_Geneid ` set rows)"
proof -
  have "list_all (\<lambda>r. extract_digits (st_Condition r) \<noteq> [] \<and> day_of (st_Condition r) < 2 ^ 63)
      (groupby_agg rows)"
    unfolding list_all_iff
  proof
    fix r assume "r \<in> set (groupby_agg rows)"
    from groupby_agg_conditions [OF this] obtain p where "p \<in> set rows"
      "pr_Condition p = st_Condition r" by blast
    with assms show "extract_digits (st_Condition r) \<noteq> [] \<and> day_of (st_Condition r) < 2 ^ 63"
      by metis
  qed
  from with_day_ok [OF this] obtain ds where ds: "with_day (groupby_agg rows) = Inr ds"
    by blast
  have "length ds = length (groupby_agg rows)"
    using arg_cong [OF with_day_keys [OF ds], of length] by simp
  moreover have "length (sort_values ds) = length ds"
    by (simp add: sort_values_def)
  ultimately have "sort_values ds = [] \<longleftrightarrow> groupby_agg rows = []"
    by (metis length_0_conv)
  then have e: "sort_values ds = [] \<longleftrightarrow> (\<forall>r \<in> set rows. pr_Geneid r = None)"
    by (simp only: groupby_agg_nonempty)
  have g: "\<forall>d \<in> set (sort_values ds). Some (st_Geneid d) \<in> pr_Geneid ` set rows"
  proof
    fix d assume "d \<in> set (sort_values ds)"
    then have "d \<in> set ds" by (simp add: set_sort_values)
    from with_day_mem [OF ds this] obtain r0 where r0: "r0 \<in> set (groupby_agg rows)"
      "st_Geneid d = st_Geneid r0" by blast
    from groupby_agg_conditions [OF r0(1)] r0(2)
    show "Some (st_Geneid d) \<in> pr_Geneid ` set rows" by force
  qed
  show ?thesis
    using e g by (simp add: aggregate_stats_def ds)
qed

lemma fs_print: "fs (print s w) = fs w"
  by (simp add: print_def)

lemma open_w_print: "open_w (print s w) p = open_w w p"
  by (simp only: open_w_def fs_print)

lemma text_genes:
  assumes "x \<in> set (gene_cells (Text ids))" and "x = Some g"
  shows "\<exists>s. g = GStr s"
proof -
  from assms obtain xa where "Some g = map_option GStr xa"
    by (auto simp: gene_cells_def)
  then show ?thesis by (cases xa) auto
qed

text \<open>
  Claim C2, as the code has it. Take a readable count file that \<^verbatim>\<open>read_csv\<close> (tab
  separator, comment character \<^verbatim>\<open>#\<close>, so that lines beginning with it are skipped)
  parses to a table with a \<^verbatim>\<open>Geneid\<close> column of text that names at least one gene, a
  numeric \<^verbatim>\<open>Length\<close> column and at least one column from the seventh on, each of
  these numeric, named neither \<^verbatim>\<open>Geneid\<close> nor \<^verbatim>\<open>log2TPM\<close>, and with a run of
  digits (one that fits 64 bits) in its name before the first underscore; and take an
  output path that can be opened for writing (no directory is at the path, and the
  directory the path lies in exists). Then \<^verbatim>\<open>generate_html_dashboard\<close> runs its
  steps in this order: parse, normalise to log2(TPM + 1), aggregate by condition, build
  the traces and buttons, and write one HTML file, the serialised figure, at the output
  path (plotly's \<^verbatim>\<open>plot\<close> appends \<^verbatim>\<open>.html\<close> to a path that lacks it). The
  printed lines record the order.
\<close>

theorem generate_html_dashboard_steps:
  assumes "fs w input_file = Some (File text)"
    and "read_csv lib text (CHR 0x09) (CHR ''#'') = Inr df"
    and "wf_frame df n"
    and "getitem df ''Geneid'' = Inr (Text ids)" and "Some g0 \<in> set ids"
    and "getitem df ''Length'' = Inr lcol" and "\<not> isl (to_numeric lcol)"
    and "drop 6 df \<noteq> []"
    and "\<forall>c \<in> set (drop 6 df).
           \<not> isl (to_numeric (snd c)) \<and> fst c \<noteq> ''Geneid'' \<and> fst c \<noteq> ''log2TPM'' \<and>
           extract_digits (split_first (fst c)) \<noteq> [] \<and> day_of (split_first (fst c)) < 2 ^ 63"
    and "open_w w (plot_filename output_html) = Inr ()"
  shows "\<exists>t rows stats fig.
    calculate_log2_tpm df = Inr t \<and> plot_data_of t = Inr rows \<and>
    aggregate_stats rows = Inr stats \<and> build_figure (str_number lib) stats = Inr fig \<and>
    generate_html_dashboard lib input_file output_html w =
      (Inr (),
       \<lparr>fs = (fs w)(plot_filename output_html \<mapsto> File (to_html lib fig)),
        stdout = stdout w @
          [''Loading '' @ input_file @ ''...'',
           ''Calculating log2(TPM + 1)...'',
           ''Aggregating data by condition...'',
           ''Generating Interactive Ribbon Plots...'',
           ''Done! Dashboard saved to '' @ output_html]\<rparr>)"
proof -
  from assms(7) obtain ls where ls: "to_numeric lcol = Inr ls"
    by (cases "to_numeric lcol") auto
  have c6: "\<forall>c \<in> set (drop 6 df). fst c \<noteq> ''Geneid'' \<and> \<not> isl (to_numeric (snd c))"
    using assms(9) by blast
  from calculate_log2_tpm_ok [OF assms(3,4,6) ls c6] obtain t
    where t: "calculate_log2_tpm df = Inr t" "Geneids t = gene_cells (Text ids)"
      "map fst (log2_cols t) = map fst (drop 6 df)"
      "\<forall>c \<in> set (log2_cols t). length (snd c) = n"
    by blast
  have n: "length (Geneids t) = n"
    using wf_frame_length [OF assms(3) getitem_mem [OF assms(4)]]
    by (simp add: t(2) gene_cells_def)
  have g0: "Some (GStr g0) \<in> set (Geneids t)"
    using assms(5) by (force simp: t(2) gene_cells_def)
  have cols: "log2_cols t \<noteq> []"
    using assms(8) arg_cong [OF t(3), of length] by auto
  have "''log2TPM'' \<notin> set (map fst (log2_cols t))"
    using assms(9) unfolding t(3) by auto
  from plot_data_of_ok [OF this] obtain rows where rows: "plot_data_of t = Inr rows"
    by blast
  have lens: "\<forall>c \<in> set (log2_cols t). length (snd c) = length (Geneids t)"
    using t(4) n by simp
  from plot_data_has_gene [OF rows g0 cols lens]
  have has: "\<not> (\<forall>r \<in> set rows. pr_Geneid r = None)" by auto
  have conds: "\<forall>r \<in> set rows.
      extract_digits (pr_Condition r) \<noteq> [] \<and> day_of (pr_Condition r) < 2 ^ 63"
  proof
    fix r assume "r \<in> set rows"
    from plot_data_genes(2) [OF rows this]
    obtain c where "c \<in> set (drop 6 df)" "pr_Condition r = split_first (fst c)"
      unfolding t(3) by auto
    with assms(9) show "extract_digits (pr_Condition r) \<noteq> [] \<and> day_of (pr_Condition r) < 2 ^ 63"
      by simp
  qed
  from aggregate_stats_ok [OF conds] has obtain stats
    where stats: "aggregate_stats rows = Inr stats" "stats \<noteq> []"
      "\<forall>d \<in> set stats. Some (st_Geneid d) \<in> pr_Geneid ` set rows"
    by blast
  have strs: "\<forall>d \<in> set stats. \<exists>s. st_Geneid d = GStr s"
  proof
    fix d assume "d \<in> set stats"
    with stats(3) obtain r where r: "r \<in> set rows" "pr_Geneid r = Some (st_Geneid d)"
      by force
    from plot_data_genes(1) [OF rows r(1)] have "pr_Geneid r \<in> set (gene_cells (Text ids))"
      by (simp only: t(2))
    from text_genes [OF this r(2)] show "\<exists>s. st_Geneid d = GStr s" .
  qed
  have valid: "\<forall>p \<in> set (shown_genes stats). \<not> isl (validate_string (str_number lib) (snd p))"
  proof
    fix p assume "p \<in> set (shown_genes stats)"
    then have "snd p \<in> st_Geneid ` set stats" using shown_genes_snd by blast
    with strs obtain s where "snd p = GStr s" by auto
    then show "\<not> isl (validate_string (str_number lib) (snd p))"
      by (simp add: validate_string_def)
  qed
  from build_figure_ok [OF stats(2) valid] obtain fig
    where fig: "build_figure (str_number lib) stats = Inr fig"
    by blast
  let ?w4 = "print ''Generating Interactive Ribbon Plots...''
        (print ''Aggregating data by condition...''
          (print ''Calculating log2(TPM + 1)...''
            (print (''Loading '' @ input_file @ ''...'') w)))"
  have o: "open_w ?w4 (plot_filename output_html) = Inr ()"
    by (simp only: open_w_print assms(10))
  have p: "plot lib fig output_html ?w4 =
     (Inr (), \<lparr>fs = (fs w)(plot_filename output_html \<mapsto> File (to_html lib fig)),
        stdout = stdout w @
          [''Loading '' @ input_file @ ''...'',
           ''Calculating log2(TPM + 1)...'',
           ''Aggregating data by condition...'',
           ''Generating Interactive Ribbon Plots...'']\<rparr>)"
    unfolding plot_def o by (simp add: print_def)
  have "generate_html_dashboard lib input_file output_html w =
      (Inr (),
       \<lparr>fs = (fs w)(plot_filename output_html \<mapsto> File (to_html lib fig)),
        stdout = stdout w @
          [''Loading '' @ input_file @ ''...'',
           ''Calculating log2(TPM + 1)...'',
           ''Aggregating data by condition...'',
           ''Generating Interactive Ribbon Plots...'',
           ''Done! Dashboard saved to '' @ output_html]\<rparr>)"
    unfolding generate_html_dashboard_def Let_def
    apply (simp only: fs_print assms(1) option.case node.case assms(2) sum.case t(1) rows
        stats(1) fig p prod.case)
    apply (simp add: print_def)
    done
  with t(1) rows stats(1) fig show ?thesis by blast
qed

lemma plot_fs:
  "fs (snd (plot lib fig filename w)) = fs w \<or>
   (\<exists>html. fs (snd (plot lib fig filename w)) = (fs w)(plot_filename filename \<mapsto> File html))"
  by (cases "open_w w (plot_filename filename)") (auto simp: plot_def)

lemma generate_html_dashboard_fs:
  "fs (snd (generate_html_dashboard lib input_file output_html w)) = fs w \<or>
   (\<exists>html. fs (snd (generate_html_dashboard lib input_file output_html w)) =
      (fs w)(plot_filename output_html \<mapsto> File html))"
proof -
  let ?w4 = "print ''Generating Interactive Ribbon Plots...''
        (print ''Aggregating data by condition...''
          (print ''Calculating log2(TPM + 1)...''
            (print (''Loading '' @ input_file @ ''...'') w)))"
  have w4: "fs ?w4 = fs w" by (simp only: fs_print)
  have p: "fs (snd (plot lib fig output_html ?w4)) = fs w \<or>
   (\<exists>html. fs (snd (plot lib fig output_html ?w4)) = (fs w)(plot_filename output_html \<mapsto> File html))"
    for fig
    using plot_fs [of lib fig output_html ?w4] by (simp only: w4)
  show ?thesis
    unfolding generate_html_dashboard_def Let_def
    using p
    by (auto simp: fs_print split: option.splits node.splits sum.splits prod.splits;
        metis snd_conv)
qed

lemma plot_filename_output: "plot_filename ''expression_dashboard.html'' = ''expression_dashboard.html''"
  by (simp add: plot_filename_def ends_with_def)

text \<open>
  Claim C7. Whatever the library code returns, a run of the script leaves the file
  system as it was or changes it in one place, the file
  \<^verbatim>\<open>expression_dashboard.html\<close>; the input file \<^verbatim>\<open>sense_read_counts\<close> is as before.
  The state of a run is the file system and the printed lines, nothing else.
\<close>

theorem main_writes_only_the_dashboard:
  "(fs (snd (main lib w)) = fs w \<or>
    (\<exists>html. fs (snd (main lib w)) =
       (fs w)(''expression_dashboard.html'' \<mapsto> File html))) \<and>
   fs (snd (main lib w)) ''sense_read_counts'' = fs w ''sense_read_counts''"
proof -
  have "fs (snd (main lib w)) = fs w \<or>
    (\<exists>html. fs (snd (main lib w)) =
       (fs w)(''expression_dashboard.html'' \<mapsto> File html))"
    using generate_html_dashboard_fs [of lib input_filename output_filename w]
    by (auto simp: main_def fs_print output_filename_def plot_filename_output)
  then show ?thesis by auto
qed

text \<open>
  Claim C10. When \<^verbatim>\<open>sense_read_counts\<close> does not exist, the script prints the error
  line and ends: \<^verbatim>\<open>generate_html_dashboard\<close> is not called (no line of it is printed,
  the library plays no part) and the file system is unchanged.
\<close>

theorem main_missing_input:
  assumes "fs w ''sense_read_counts'' = None"
  shows "main lib w =
    (Inr (), w\<lparr>stdout := stdout w @ [''Error: sense_read_counts not found.'']\<rparr>)"
  using assms by (simp add: main_def path_exists_def input_filename_def print_def)

section \<open>The concrete tables, evaluated\<close>

lemmas pipeline_defs = calculate_log2_tpm_def tpm_of_def rpk_of_def getitem_def to_numeric_def
  scaling_factors_def div_axis0_def fsum_def gene_cells_def plot_data_of_def melt_def
  split_first_def groupby_agg_def group_keys_def gid_key_def fl_key_def group_values_def
  mean_of_def std_of_def dropna_def is_inf_def aggregate_stats_def sort_values_def
  astype_int_def day_of_def extract_digits_def is_digit_def int_of_digits_def

lemma df_one_wf: "wf_frame df_one 1"
  by (simp add: wf_frame_def wf_column_def df_one_def)

lemma df_one_rpk: "rpk_of df_one = Inr [(''d04_rep1'', [Fin 1])]"
  by (simp add: pipeline_defs df_one_def)

lemma df_one_tpm: "tpm_of df_one = Inr [(''d04_rep1'', [Fin 1000000])]"
  by (simp add: pipeline_defs df_one_def)

lemma df_one_log2:
  "calculate_log2_tpm df_one =
     Inr \<lparr>Geneids = [Some (GStr ''g1'')], log2_cols = [(''d04_rep1'', [Fin (log 2 1000001)])]\<rparr>"
  by (simp add: pipeline_defs df_one_def)

lemma stats_two_keys:
  "map (\<lambda>r. (st_Geneid r, st_Condition r)) stats_two =
     [(GStr ''g0'', ''d4''), (GStr ''g0'', ''d11''), (GStr ''g1'', ''d4''), (GStr ''g1'', ''d11'')]"
  unfolding stats_two_def by (simp add: pipeline_defs df_two_def)

lemma t_noreads_cols:
  "calculate_log2_tpm df_noreads =
     Inr \<lparr>Geneids = [Some (GStr ''g1'')],
          log2_cols = [(''d04_rep1'', [Fin (log 2 1000001)]), (''d04_rep2'', [NaN])]\<rparr>"
  by (simp add: pipeline_defs df_noreads_def)

lemma df_two_wf: "wf_frame df_two 2"
  by (simp add: wf_frame_def wf_column_def df_two_def)

lemma df_two_rpk:
  "rpk_of df_two =
     Inr [(''d11_rep1'', [Fin 1, Fin 1]), (''d4_rep1'', [Fin 1, Fin 2]), (''d4_rep2'', [Fin 3, Fin 1])]"
  by (simp add: pipeline_defs df_two_def)

text \<open>The second sample of the two-gene table: reads per kilobase 1 and 2.\<close>

theorem tpm_column_sums_to_million_witness:
  "rpk_of df_two =
     Inr [(''d11_rep1'', [Fin 1, Fin 1]), (''d4_rep1'', [Fin 1, Fin 2]), (''d4_rep2'', [Fin 3, Fin 1])] \<and>
   fsum [Fin 1, Fin 2] = Fin 3 \<and>
   \<not> isl (tpm_of df_two) \<and>
   fsum (snd (projr (tpm_of df_two) ! 1)) = Fin 1000000"
proof -
  let ?rpk = "[(''d11_rep1'', [Fin 1, Fin 1]), (''d4_rep1'', [Fin 1, Fin 2]), (''d4_rep2'', [Fin 3, Fin 1])]"
  have j: "1 < length ?rpk" by simp
  have s: "fsum (snd (?rpk ! 1)) = Fin 3" by (simp add: fsum_def)
  have z: "(3::real) \<noteq> 0" by simp
  from tpm_column_sums_to_million [OF df_two_rpk j s z]
  obtain tpm where "tpm_of df_two = Inr tpm" "fsum (snd (tpm ! 1)) = Fin 1000000" by blast
  then have "\<not> isl (tpm_of df_two) \<and> fsum (snd (projr (tpm_of df_two) ! 1)) = Fin 1000000"
    by simp
  moreover have "fsum [Fin 1, Fin 2] = Fin 3" by (simp add: fsum_def)
  ultimately show ?thesis using df_two_rpk by blast
qed

text \<open>Gene \<^verbatim>\<open>g0\<close> in the second sample of the two-gene table: its TPM is 2,000,000 / 3.\<close>

theorem calculate_log2_tpm_value_witness:
  "wf_frame df_two 2 \<and>
   getitem df_two ''Geneid'' = Inr (Text [Some ''g1'', Some ''g0'']) \<and>
   getitem df_two ''Length'' = Inr (Ints [1000, 2000]) \<and>
   to_numeric (snd (drop 6 df_two ! 1)) = Inr (map Fin [1, 4]) \<and>
   \<not> isl (calculate_log2_tpm df_two) \<and>
   Geneids (projr (calculate_log2_tpm df_two)) = [Some (GStr ''g1''), Some (GStr ''g0'')] \<and>
   map fst (log2_cols (projr (calculate_log2_tpm df_two))) = [''d11_rep1'', ''d4_rep1'', ''d4_rep2''] \<and>
   snd (log2_cols (projr (calculate_log2_tpm df_two)) ! 1) ! 1 = Fin (log 2 (2000000 / 3 + 1))"
proof -
  have g: "getitem df_two ''Geneid'' = Inr (Text [Some ''g1'', Some ''g0''])"
    and l: "getitem df_two ''Length'' = Inr (Ints [1000, 2000])"
    by (simp_all add: getitem_def df_two_def)
  have ln: "to_numeric (Ints [1000, 2000]) = Inr (map Fin [1000, 2000])"
    by (simp add: to_numeric_def)
  have nz: "\<forall>l \<in> set [1000, 2000 :: real]. l \<noteq> 0" by simp
  have c: "\<forall>c \<in> set (drop 6 df_two). fst c \<noteq> ''Geneid'' \<and> \<not> isl (to_numeric (snd c))"
    by (simp add: df_two_def to_numeric_def)
  have j: "1 < length (drop 6 df_two)" by (simp add: df_two_def)
  have cs: "to_numeric (snd (drop 6 df_two ! 1)) = Inr (map Fin [1, 4])"
    by (simp add: df_two_def to_numeric_def)
  have sum: "(\<Sum>k<2. [1, 4 :: real] ! k / ([1000, 2000] ! k / 1000)) = 3"
    by (simp add: lessThan_Suc numeral_2_eq_2)
  then have s: "(\<Sum>k<2. [1, 4 :: real] ! k / ([1000, 2000] ! k / 1000)) \<noteq> 0" by simp
  have i: "(1::nat) < 2" by simp
  from calculate_log2_tpm_value [OF df_two_wf g l ln nz c j cs s i]
  obtain t where t: "calculate_log2_tpm df_two = Inr t"
    "Geneids t = gene_cells (Text [Some ''g1'', Some ''g0''])"
    "map fst (log2_cols t) = map fst (drop 6 df_two)"
    "snd (log2_cols t ! 1) ! 1 =
      flog2 (Fin ([1, 4] ! 1 / ([1000, 2000] ! 1 / 1000) /
                   ((\<Sum>k<2. [1, 4 :: real] ! k / ([1000, 2000] ! k / 1000)) / 1000000) + 1))"
    by blast
  have v: "snd (log2_cols t ! 1) ! 1 = Fin (log 2 (2000000 / 3 + 1))"
    using t(4) unfolding sum by simp
  have "Geneids t = [Some (GStr ''g1''), Some (GStr ''g0'')]"
    using t(2) by (simp add: gene_cells_def)
  moreover have "map fst (log2_cols t) = [''d11_rep1'', ''d4_rep1'', ''d4_rep2'']"
    using t(3) by (simp add: df_two_def)
  ultimately show ?thesis
    using df_two_wf g l cs v t(1) by simp
qed

text \<open>
  Claim C1 as stated reads the result as the logarithm of the TPM itself. For one gene of
  length 1000 with one read in one sample the TPM is 1,000,000 and the code returns
  \<open>log 2 1000001\<close>, not \<open>log 2 1000000\<close>.
\<close>

theorem calculate_log2_tpm_not_plain_log:
  "wf_frame df_one 1 \<and>
   tpm_of df_one = Inr [(''d04_rep1'', [Fin 1000000])] \<and>
   calculate_log2_tpm df_one =
     Inr \<lparr>Geneids = [Some (GStr ''g1'')], log2_cols = [(''d04_rep1'', [Fin (log 2 1000001)])]\<rparr> \<and>
   Fin (log 2 1000001) \<noteq> flog2 (Fin 1000000)"
proof -
  have lt: "log 2 1000000 < log 2 (1000001::real)"
    by (subst log_less_cancel_iff) simp_all
  have "flog2 (Fin 1000000) = Fin (log 2 1000000)" by simp
  with lt have "Fin (log 2 1000001) \<noteq> flog2 (Fin 1000000)"
    by (simp only: fl.inject)
  with df_one_wf df_one_tpm df_one_log2 show ?thesis by blast
qed

lemma stats_two_Inr:
  "aggregate_stats (projr (plot_data_of (projr (calculate_log2_tpm df_two)))) = Inr stats_two"
proof -
  have "\<not> isl (aggregate_stats (projr (plot_data_of (projr (calculate_log2_tpm df_two)))))"
    by (simp add: pipeline_defs df_two_def)
  then show ?thesis
    unfolding stats_two_def by simp
qed

lemma stats_two_genes: "map st_Geneid stats_two = [GStr ''g0'', GStr ''g0'', GStr ''g1'', GStr ''g1'']"
proof -
  have "map st_Geneid stats_two = map fst (map (\<lambda>r. (st_Geneid r, st_Condition r)) stats_two)"
    by simp
  then show ?thesis unfolding stats_two_keys by simp
qed

lemma stats_two_unique: "unique (map st_Geneid stats_two) = [GStr ''g0'', GStr ''g1'']"
  unfolding stats_two_genes by simp

lemma stats_two_shown: "shown_genes stats_two = [(0, GStr ''g0''), (1, GStr ''g1'')]"
  unfolding shown_genes_def stats_two_unique by (simp add: num_to_show_def enumerate_eq_zip)

lemma fig_two_Inr: "build_figure (str_number (lib_for df_two)) stats_two = Inr fig_two"
proof -
  have ne: "stats_two \<noteq> []" using stats_two_genes by auto
  have v: "\<forall>p \<in> set (shown_genes stats_two).
      \<not> isl (validate_string (str_number (lib_for df_two)) (snd p))"
    by (simp add: stats_two_shown validate_string_def)
  from build_figure_ok [OF ne v] show ?thesis
    unfolding fig_two_def by simp
qed

lemma fig_two_lengths: "length (fig_data fig_two) = 4" "length (fig_buttons fig_two) = 2"
  by (simp_all add: length_fig_data [OF fig_two_Inr] length_fig_buttons [OF fig_two_Inr] stats_two_shown)

lemma gene_stats_two_conditions:
  "map st_Condition (gene_stats_of stats_two (GStr ''g0'')) = [''d4'', ''d11'']"
proof -
  have "map st_Condition (gene_stats_of stats_two (GStr ''g0'')) =
     map snd (filter (\<lambda>k. fst k = GStr ''g0'') (map (\<lambda>r. (st_Geneid r, st_Condition r)) stats_two))"
    by (simp add: gene_stats_of_def filter_map comp_def)
  then show ?thesis unfolding stats_two_keys by simp
qed

lemma day_of_examples: "day_of ''d4'' = 4" "day_of ''d11'' = 11"
  by (simp_all add: day_of_def extract_digits_def is_digit_def int_of_digits_def)

text \<open>The second button of the two-gene figure shows traces 2 and 3 of four.\<close>

theorem dropdown_visibility_witness:
  "build_figure (str_number (lib_for df_two)) stats_two = Inr fig_two \<and>
   1 < length (fig_buttons fig_two) \<and>
   length (fig_data fig_two) = 4 \<and>
   length (bt_visible (fig_buttons fig_two ! 1)) = 4 \<and>
   \<not> bt_visible (fig_buttons fig_two ! 1) ! 0 \<and>
   \<not> bt_visible (fig_buttons fig_two ! 1) ! 1 \<and>
   bt_visible (fig_buttons fig_two ! 1) ! 2 \<and>
   bt_visible (fig_buttons fig_two ! 1) ! 3 \<and>
   bt_label (fig_buttons fig_two ! 1) = GStr ''g1''"
proof -
  have i: "1 < length (fig_buttons fig_two)" by (simp add: fig_two_lengths)
  from dropdown_visibility [OF fig_two_Inr i]
  have len: "length (bt_visible (fig_buttons fig_two ! 1)) = length (fig_data fig_two)"
    and vis: "\<forall>j < length (fig_data fig_two).
       bt_visible (fig_buttons fig_two ! 1) ! j \<longleftrightarrow> (j = 2 * 1 \<or> j = 2 * 1 + 1)"
    and lab: "bt_label (fig_buttons fig_two ! 1) = unique (map st_Geneid stats_two) ! 1"
    by blast+
  have v0: "\<not> bt_visible (fig_buttons fig_two ! 1) ! 0"
    and v1: "\<not> bt_visible (fig_buttons fig_two ! 1) ! 1"
    and v2: "bt_visible (fig_buttons fig_two ! 1) ! 2"
    and v3: "bt_visible (fig_buttons fig_two ! 1) ! 3"
    using vis by (simp_all add: fig_two_lengths)
  show ?thesis
    using fig_two_Inr i len v0 v1 v2 v3 lab by (simp add: fig_two_lengths stats_two_unique)
qed

lemma fig_two_traces:
  "fig_data fig_two ! 0 = ribbon_trace (str_number (lib_for df_two)) stats_two 0 (GStr ''g0'')"
  "line_trace (str_number (lib_for df_two)) stats_two 0 (GStr ''g0'') = Inr (fig_data fig_two ! 1)"
  "fig_data fig_two ! 2 = ribbon_trace (str_number (lib_for df_two)) stats_two 1 (GStr ''g1'')"
  "line_trace (str_number (lib_for df_two)) stats_two 1 (GStr ''g1'') = Inr (fig_data fig_two ! 3)"
proof -
  have l: "0 < length (shown_genes stats_two)" "1 < length (shown_genes stats_two)"
    by (simp_all add: stats_two_shown)
  from fig_data_nth [OF fig_two_Inr l(1)] fig_data_nth [OF fig_two_Inr l(2)]
  show "fig_data fig_two ! 0 = ribbon_trace (str_number (lib_for df_two)) stats_two 0 (GStr ''g0'')"
    "line_trace (str_number (lib_for df_two)) stats_two 0 (GStr ''g0'') = Inr (fig_data fig_two ! 1)"
    "fig_data fig_two ! 2 = ribbon_trace (str_number (lib_for df_two)) stats_two 1 (GStr ''g1'')"
    "line_trace (str_number (lib_for df_two)) stats_two 1 (GStr ''g1'') = Inr (fig_data fig_two ! 3)"
    by (simp_all add: stats_two_unique)
qed

text \<open>The two-gene figure: four traces, two buttons, the first pair visible.\<close>

theorem traces_and_buttons_count_witness:
  "aggregate_stats (projr (plot_data_of (projr (calculate_log2_tpm df_two)))) = Inr stats_two \<and>
   build_figure (str_number (lib_for df_two)) stats_two = Inr fig_two \<and>
   unique (map st_Geneid stats_two) = [GStr ''g0'', GStr ''g1''] \<and>
   length (fig_data fig_two) = 4 \<and> length (fig_buttons fig_two) = 2 \<and>
   tr_name (fig_data fig_two ! 0) = ''g0_ribbon'' \<and> tr_name (fig_data fig_two ! 1) = ''g0'' \<and>
   tr_name (fig_data fig_two ! 2) = ''g1_ribbon'' \<and> tr_name (fig_data fig_two ! 3) = ''g1'' \<and>
   tr_visible (fig_data fig_two ! 0) \<and> tr_visible (fig_data fig_two ! 1) \<and>
   \<not> tr_visible (fig_data fig_two ! 2) \<and> \<not> tr_visible (fig_data fig_two ! 3)"
proof -
  have m: "min (length [GStr ''g0'', GStr ''g1'']) 200 = (2::nat)" by simp
  have lt: "(0::nat) < 2" "(1::nat) < 2" by simp_all
  note T = traces_and_buttons_count [OF fig_two_Inr, unfolded stats_two_unique m]
  from T have n: "length (fig_data fig_two) = 4" "length (fig_buttons fig_two) = 2"
    by simp_all
  from T lt(1) have v0: "tr_visible (fig_data fig_two ! (2 * 0)) \<longleftrightarrow> (0::nat) = 0"
    "tr_visible (fig_data fig_two ! (2 * 0 + 1)) \<longleftrightarrow> (0::nat) = 0"
    by blast+
  from T lt(2) have v1: "tr_visible (fig_data fig_two ! (2 * 1)) \<longleftrightarrow> (1::nat) = 0"
    "tr_visible (fig_data fig_two ! (2 * 1 + 1)) \<longleftrightarrow> (1::nat) = 0"
    by blast+
  have vis: "tr_visible (fig_data fig_two ! 0)" "tr_visible (fig_data fig_two ! 1)"
    "\<not> tr_visible (fig_data fig_two ! 2)" "\<not> tr_visible (fig_data fig_two ! 3)"
    using v0 v1 by simp_all
  have names: "tr_name (fig_data fig_two ! 0) = ''g0_ribbon''"
    "tr_name (fig_data fig_two ! 2) = ''g1_ribbon''"
    by (simp_all add: fig_two_traces ribbon_trace_def Let_def format_gene_def)
  have lnames: "tr_name (fig_data fig_two ! 1) = ''g0''" "tr_name (fig_data fig_two ! 3) = ''g1''"
    using line_trace_Inr(4) [OF fig_two_traces(2)] line_trace_Inr(4) [OF fig_two_traces(4)]
    by (simp_all add: validate_string_def)
  show ?thesis
    using stats_two_Inr fig_two_Inr stats_two_unique n vis names lnames by simp
qed

text \<open>
  Claim C9 as stated gives the figure as many dropdown buttons as traces. For two genes
  the figure has four traces and two buttons.
\<close>

theorem buttons_are_not_as_many_as_traces:
  "aggregate_stats (projr (plot_data_of (projr (calculate_log2_tpm df_two)))) = Inr stats_two \<and>
   build_figure (str_number (lib_for df_two)) stats_two = Inr fig_two \<and>
   unique (map st_Geneid stats_two) = [GStr ''g0'', GStr ''g1''] \<and>
   length (fig_data fig_two) = 4 \<and> length (fig_buttons fig_two) = 2 \<and>
   length (fig_buttons fig_two) \<noteq> length (fig_data fig_two)"
  using stats_two_Inr fig_two_Inr stats_two_unique by (simp add: fig_two_lengths)

lemma fig_two_ribbon_x: "tr_x (fig_data fig_two ! 0) = [''d4'', ''d11'', ''d11'', ''d4'']"
  by (simp add: fig_two_traces(1) ribbon_trace_def Let_def gene_stats_two_conditions)

text \<open>The mean line of gene \<^verbatim>\<open>g0\<close> runs from day 4 to day 11, although \<^verbatim>\<open>d11\<close> sorts
  before \<^verbatim>\<open>d4\<close> as text.\<close>

theorem conditions_ascending_witness:
  "aggregate_stats (projr (plot_data_of (projr (calculate_log2_tpm df_two)))) = Inr stats_two \<and>
   build_figure (str_number (lib_for df_two)) stats_two = Inr fig_two \<and>
   0 < length (fig_buttons fig_two) \<and>
   tr_x (fig_data fig_two ! 0) = [''d4'', ''d11'', ''d11'', ''d4''] \<and>
   tr_x (fig_data fig_two ! 1) = [''d4'', ''d11''] \<and>
   sorted (map day_of (tr_x (fig_data fig_two ! 1)))"
proof -
  have i: "0 < length (fig_buttons fig_two)" by (simp add: fig_two_lengths)
  from conditions_ascending [OF stats_two_Inr fig_two_Inr i]
  have s: "sorted (map day_of (tr_x (fig_data fig_two ! 1)))"
    by simp
  have "tr_x (fig_data fig_two ! 1) = [''d4'', ''d11'']"
    using line_trace_Inr(1) [OF fig_two_traces(2)] by (simp add: gene_stats_two_conditions)
  then show ?thesis
    using stats_two_Inr fig_two_Inr i s fig_two_ribbon_x by simp
qed

text \<open>
  Claim C6 as stated covers every plotted trace of a gene. The ribbon trace of gene
  \<^verbatim>\<open>g0\<close> runs through days 4, 11, 11, 4.
\<close>

theorem ribbon_conditions_not_ascending:
  "aggregate_stats (projr (plot_data_of (projr (calculate_log2_tpm df_two)))) = Inr stats_two \<and>
   build_figure (str_number (lib_for df_two)) stats_two = Inr fig_two \<and>
   tr_name (fig_data fig_two ! 0) = ''g0_ribbon'' \<and>
   tr_x (fig_data fig_two ! 0) = [''d4'', ''d11'', ''d11'', ''d4''] \<and>
   map day_of (tr_x (fig_data fig_two ! 0)) = [4, 11, 11, 4] \<and>
   \<not> sorted (map day_of (tr_x (fig_data fig_two ! 0)))"
proof -
  have n: "tr_name (fig_data fig_two ! 0) = ''g0_ribbon''"
    by (simp add: fig_two_traces(1) ribbon_trace_def Let_def format_gene_def)
  show ?thesis
    using stats_two_Inr fig_two_Inr n by (simp add: fig_two_ribbon_x day_of_examples)
qed

lemma rows_small_Inr: "\<not> isl (plot_data_of t_small)"
  by (simp add: pipeline_defs t_small_def)

lemma stats_small_Inr: "aggregate_stats (projr (plot_data_of t_small)) = Inr stats_small"
proof -
  have "\<not> isl (aggregate_stats (projr (plot_data_of t_small)))"
    by (simp add: pipeline_defs t_small_def)
  then show ?thesis
    unfolding stats_small_def by simp
qed

lemma stats_small_keys:
  "map (\<lambda>r. (st_Geneid r, st_Condition r)) stats_small =
     [(GStr ''g1'', ''d04''), (GStr ''g1'', ''d07'')]"
  unfolding stats_small_def by (simp add: pipeline_defs t_small_def)

lemma t_small_values:
  "condition_values t_small (GStr ''g1'') ''d04'' = [Fin 1, Fin 3, NaN]"
  "condition_values t_small (GStr ''g1'') ''d07'' = [Fin 5]"
  by (simp_all add: condition_values_def t_small_def split_first_def)

text \<open>Day 4 of the small table has the values 1 and 3 and an empty cell: mean 2,
  deviation \<open>sqrt 2\<close>; day 7 has the single value 5.\<close>

theorem aggregated_statistics_witness:
  "plot_data_of t_small = Inr (projr (plot_data_of t_small)) \<and>
   aggregate_stats (projr (plot_data_of t_small)) = Inr stats_small \<and>
   map (\<lambda>r. (st_Geneid r, st_Condition r)) stats_small =
     [(GStr ''g1'', ''d04''), (GStr ''g1'', ''d07'')] \<and>
   condition_values t_small (GStr ''g1'') ''d04'' = [Fin 1, Fin 3, NaN] \<and>
   condition_values t_small (GStr ''g1'') ''d07'' = [Fin 5] \<and>
   st_mean (stats_small ! 0) = Fin 2 \<and> st_std (stats_small ! 0) = Fin (sqrt 2) \<and>
   st_mean (stats_small ! 1) = Fin 5 \<and> st_std (stats_small ! 1) = NaN"
proof -
  have rows: "plot_data_of t_small = Inr (projr (plot_data_of t_small))"
    using rows_small_Inr by simp
  have len: "length stats_small = 2"
  proof -
    have "length (map (\<lambda>r. (st_Geneid r, st_Condition r)) stats_small) = 2"
      by (simp only: stats_small_keys) simp
    then show ?thesis by simp
  qed
  have k0: "st_Geneid (stats_small ! 0) = GStr ''g1''" "st_Condition (stats_small ! 0) = ''d04''"
    and k1: "st_Geneid (stats_small ! 1) = GStr ''g1''" "st_Condition (stats_small ! 1) = ''d07''"
    using arg_cong [OF stats_small_keys, of "\<lambda>ks. ks ! 0"]
      arg_cong [OF stats_small_keys, of "\<lambda>ks. ks ! 1"] len
    by simp_all
  have m: "stats_small ! 0 \<in> set stats_small" "stats_small ! 1 \<in> set stats_small"
    using len by simp_all
  from aggregated_statistics [OF rows stats_small_Inr]
  have a: "\<forall>r \<in> set stats_small.
       let vs = dropna (condition_values t_small (st_Geneid r) (st_Condition r))
       in \<not> list_ex is_inf vs \<longrightarrow>
          st_mean r =
            (if vs = [] then NaN else Fin (sum_list (reals_of vs) / real (length vs))) \<and>
          st_std r =
            (if length vs < 2 then NaN
             else Fin (sqrt (sum_list (map (\<lambda>x. (x - sum_list (reals_of vs) / real (length vs))\<^sup>2)
                                           (reals_of vs))
                             / real (length vs - 1))))"
    by blast
  from bspec [OF a m(1), unfolded k0 t_small_values]
  have "st_mean (stats_small ! 0) = Fin 2 \<and> st_std (stats_small ! 0) = Fin (sqrt 2)"
    by (simp add: Let_def dropna_def is_inf_def)
  moreover from bspec [OF a m(2), unfolded k1 t_small_values]
  have "st_mean (stats_small ! 1) = Fin 5 \<and> st_std (stats_small ! 1) = NaN"
    by (simp add: Let_def dropna_def is_inf_def)
  ultimately show ?thesis
    using rows stats_small_Inr stats_small_keys t_small_values by simp
qed

lemma t_noreads_eq:
  "t_noreads = \<lparr>Geneids = [Some (GStr ''g1'')],
          log2_cols = [(''d04_rep1'', [Fin (log 2 1000001)]), (''d04_rep2'', [NaN])]\<rparr>"
  unfolding t_noreads_def by (simp add: t_noreads_cols)

lemma stats_noreads_Inr:
  "aggregate_stats (projr (plot_data_of t_noreads)) = Inr stats_noreads"
proof -
  have "\<not> isl (aggregate_stats (projr (plot_data_of t_noreads)))"
    unfolding t_noreads_eq by (simp add: pipeline_defs)
  then show ?thesis
    unfolding stats_noreads_def by simp
qed

lemma stats_noreads_row:
  "map (\<lambda>r. (st_Geneid r, st_Condition r, st_mean r, st_std r)) stats_noreads =
     [(GStr ''g1'', ''d04'', Fin (log 2 1000001), NaN)]"
  unfolding stats_noreads_def t_noreads_eq by (simp add: pipeline_defs)

text \<open>
  Claim C4 as stated takes the mean over all sample columns of the condition. For one
  gene and two replicates of day 4, the second without any read, the cell of the second
  replicate is \<^verbatim>\<open>NaN\<close> (0 / 0); the mean in the statistics table is the first cell
  alone, \<open>log 2 1000001\<close>, whereas the arithmetic mean of the two cells is \<^verbatim>\<open>NaN\<close>.
\<close>

theorem mean_skips_sample_without_reads:
  "calculate_log2_tpm df_noreads = Inr t_noreads \<and>
   aggregate_stats (projr (plot_data_of t_noreads)) = Inr stats_noreads \<and>
   condition_values t_noreads (GStr ''g1'') ''d04'' = [Fin (log 2 1000001), NaN] \<and>
   length stats_noreads = 1 \<and>
   st_Geneid (stats_noreads ! 0) = GStr ''g1'' \<and> st_Condition (stats_noreads ! 0) = ''d04'' \<and>
   st_mean (stats_noreads ! 0) = Fin (log 2 1000001) \<and>
   st_std (stats_noreads ! 0) = NaN \<and>
   plain_mean (condition_values t_noreads (GStr ''g1'') ''d04'') = NaN \<and>
   st_mean (stats_noreads ! 0) \<noteq> plain_mean (condition_values t_noreads (GStr ''g1'') ''d04'')"
proof -
  have c: "calculate_log2_tpm df_noreads = Inr t_noreads"
    by (simp only: t_noreads_cols t_noreads_eq)
  have v: "condition_values t_noreads (GStr ''g1'') ''d04'' = [Fin (log 2 1000001), NaN]"
    unfolding t_noreads_eq by (simp add: condition_values_def split_first_def)
  have len: "length stats_noreads = 1"
    using arg_cong [OF stats_noreads_row, of length] by simp
  have r: "st_Geneid (stats_noreads ! 0) = GStr ''g1''" "st_Condition (stats_noreads ! 0) = ''d04''"
    "st_mean (stats_noreads ! 0) = Fin (log 2 1000001)" "st_std (stats_noreads ! 0) = NaN"
    using arg_cong [OF stats_noreads_row, of "\<lambda>ks. ks ! 0"] len by simp_all
  have p: "plain_mean (condition_values t_noreads (GStr ''g1'') ''d04'') = NaN"
    unfolding v by (simp add: plain_mean_def)
  show ?thesis
    using c stats_noreads_Inr v len r p by simp
qed

lemma df_two_conditions:
  "\<forall>c \<in> set (drop 6 df_two).
           \<not> isl (to_numeric (snd c)) \<and> fst c \<noteq> ''Geneid'' \<and> fst c \<noteq> ''log2TPM'' \<and>
           extract_digits (split_first (fst c)) \<noteq> [] \<and> day_of (split_first (fst c)) < 2 ^ 63"
  by (simp add: df_two_def to_numeric_def split_first_def extract_digits_def is_digit_def
      day_of_def int_of_digits_def)

text \<open>The run on the two-gene table writes the dashboard and prints five lines.\<close>

theorem generate_html_dashboard_steps_witness:
  "fs w_input ''sense_read_counts'' = Some (File ''counts'') \<and>
   read_csv (lib_for df_two) ''counts'' (CHR 0x09) (CHR ''#'') = Inr df_two \<and>
   wf_frame df_two 2 \<and>
   open_w w_input (plot_filename ''expression_dashboard.html'') = Inr () \<and>
   generate_html_dashboard (lib_for df_two)
       ''sense_read_counts'' ''expression_dashboard.html'' w_input =
     (Inr (),
      \<lparr>fs = [''sense_read_counts'' \<mapsto> File ''counts'',
              ''expression_dashboard.html'' \<mapsto> File ''<html>''],
       stdout = [''Loading sense_read_counts...'',
                 ''Calculating log2(TPM + 1)...'',
                 ''Aggregating data by condition...'',
                 ''Generating Interactive Ribbon Plots...'',
                 ''Done! Dashboard saved to expression_dashboard.html'']\<rparr>)"
proof -
  have a: "fs w_input ''sense_read_counts'' = Some (File ''counts'')"
    by (simp add: w_input_def)
  have b: "read_csv (lib_for df_two) ''counts'' (CHR 0x09) (CHR ''#'') = Inr df_two"
    by (simp add: lib_for_def)
  have g: "getitem df_two ''Geneid'' = Inr (Text [Some ''g1'', Some ''g0''])"
    and l: "getitem df_two ''Length'' = Inr (Ints [1000, 2000])"
    by (simp_all add: getitem_def df_two_def)
  have g0: "Some ''g1'' \<in> set [Some ''g1'', Some ''g0'']" by simp
  have ln: "\<not> isl (to_numeric (Ints [1000, 2000]))" by (simp add: to_numeric_def)
  have s: "drop 6 df_two \<noteq> []" by (simp add: df_two_def)
  have d: "open_w w_input (plot_filename ''expression_dashboard.html'') = Inr ()"
    by (simp add: plot_filename_output open_w_def dirname_def w_input_def)
  from generate_html_dashboard_steps [OF a b df_two_wf g g0 l ln s df_two_conditions d]
  have "generate_html_dashboard (lib_for df_two)
       ''sense_read_counts'' ''expression_dashboard.html'' w_input =
     (Inr (),
      \<lparr>fs = (fs w_input)(''expression_dashboard.html'' \<mapsto> File ''<html>''),
       stdout = stdout w_input @ [''Loading '' @ ''sense_read_counts'' @ ''...'',
                 ''Calculating log2(TPM + 1)...'',
                 ''Aggregating data by condition...'',
                 ''Generating Interactive Ribbon Plots...'',
                 ''Done! Dashboard saved to '' @ ''expression_dashboard.html'']\<rparr>)"
    unfolding plot_filename_output by (auto simp: lib_for_def)
  then show ?thesis
    using a b df_two_wf d by (simp add: w_input_def)
qed

lemma df_nodigit_stats:
  "\<not> isl (calculate_log2_tpm df_nodigit)"
  "\<not> isl (plot_data_of (projr (calculate_log2_tpm df_nodigit)))"
  "aggregate_stats (projr (plot_data_of (projr (calculate_log2_tpm df_nodigit)))) = Inl ValueError"
  by (simp_all add: pipeline_defs df_nodigit_def)

text \<open>
  Claim C2 as stated covers every readable count file. A file whose table has the sample
  column \<^verbatim>\<open>ctrl_rep1\<close> stops at the conversion of the day to an integer: the run ends
  in \<^verbatim>\<open>ValueError\<close> after three printed lines and no dashboard file exists.
\<close>

theorem no_dashboard_without_digits:
  "fs w_input ''sense_read_counts'' = Some (File ''counts'') \<and>
   read_csv (lib_for df_nodigit) ''counts'' (CHR 0x09) (CHR ''#'') = Inr df_nodigit \<and>
   wf_frame df_nodigit 1 \<and>
   fs w_input ''expression_dashboard.html'' = None \<and>
   generate_html_dashboard (lib_for df_nodigit)
       ''sense_read_counts'' ''expression_dashboard.html'' w_input =
     (Inl ValueError,
      \<lparr>fs = fs w_input,
       stdout = [''Loading sense_read_counts...'',
                 ''Calculating log2(TPM + 1)...'',
                 ''Aggregating data by condition...'']\<rparr>)"
proof -
  have a: "fs w_input ''sense_read_counts'' = Some (File ''counts'')"
    and n: "fs w_input ''expression_dashboard.html'' = None"
    by (simp_all add: w_input_def)
  have b: "read_csv (lib_for df_nodigit) ''counts'' (CHR 0x09) (CHR ''#'') = Inr df_nodigit"
    by (simp add: lib_for_def)
  have w: "wf_frame df_nodigit 1"
    by (simp add: wf_frame_def wf_column_def df_nodigit_def)
  obtain t where t: "calculate_log2_tpm df_nodigit = Inr t"
    using df_nodigit_stats(1) by (cases "calculate_log2_tpm df_nodigit") auto
  obtain rows where rows: "plot_data_of t = Inr rows"
    using df_nodigit_stats(2) t by (cases "plot_data_of t") auto
  have e: "aggregate_stats rows = Inl ValueError"
    using df_nodigit_stats(3) t rows by simp
  have "generate_html_dashboard (lib_for df_nodigit)
       ''sense_read_counts'' ''expression_dashboard.html'' w_input =
     (Inl ValueError,
      \<lparr>fs = fs w_input,
       stdout = [''Loading sense_read_counts...'',
                 ''Calculating log2(TPM + 1)...'',
                 ''Aggregating data by condition...'']\<rparr>)"
    unfolding generate_html_dashboard_def Let_def
    apply (simp only: fs_print a b option.case node.case sum.case t rows e)
    apply (simp add: print_def w_input_def)
    done
  with a b w n show ?thesis by blast
qed

text \<open>A directory that holds another file only.\<close>

theorem main_missing_input_witness:
  "fs w_other ''sense_read_counts'' = None \<and>
   main (lib_for df_two) w_other =
     (Inr (), \<lparr>fs = [''notes.txt'' \<mapsto> File ''keep''],
               stdout = [''Error: sense_read_counts not found.'']\<rparr>)"
proof -
  have a: "fs w_other ''sense_read_counts'' = None"
    by (simp add: w_other_def)
  from main_missing_input [OF a, of "lib_for df_two"] a
  show ?thesis by (simp add: w_other_def)
qed

text \<open>
  Other ways a readable file ends without a dashboard: gene identifiers that are all
  numbers (the trace name is refused after four printed lines), an output path in a
  directory that does not exist, a table without \<^verbatim>\<open>Geneid\<close> or \<^verbatim>\<open>Length\<close>, a
  column of text among the counts, a sample named \<^verbatim>\<open>log2TPM\<close>.
\<close>

lemma int_gene_ids_raise:
  "generate_html_dashboard (lib_for df_intid)
       ''sense_read_counts'' ''expression_dashboard.html'' w_input =
     (Inl ValueError,
      \<lparr>fs = fs w_input,
       stdout = [''Loading sense_read_counts...'',
                 ''Calculating log2(TPM + 1)...'',
                 ''Aggregating data by condition...'',
                 ''Generating Interactive Ribbon Plots...'']\<rparr>)"
proof -
  have a: "fs w_input ''sense_read_counts'' = Some (File ''counts'')"
    by (simp add: w_input_def)
  have b: "read_csv (lib_for df_intid) ''counts'' (CHR 0x09) (CHR ''#'') = Inr df_intid"
    by (simp add: lib_for_def)
  have c: "\<not> isl (calculate_log2_tpm df_intid)"
    "\<not> isl (plot_data_of (projr (calculate_log2_tpm df_intid)))"
    "\<not> isl (aggregate_stats (projr (plot_data_of (projr (calculate_log2_tpm df_intid)))))"
    by (simp_all add: pipeline_defs df_intid_def)
  obtain t where t: "calculate_log2_tpm df_intid = Inr t"
    using c(1) by (cases "calculate_log2_tpm df_intid") auto
  obtain rows where rows: "plot_data_of t = Inr rows"
    using c(2) t by (cases "plot_data_of t") auto
  obtain stats where stats: "aggregate_stats rows = Inr stats"
    using c(3) t rows by (cases "aggregate_stats rows") auto
  have "map st_Geneid (projr (aggregate_stats (projr (plot_data_of (projr (calculate_log2_tpm df_intid))))))
      = [GInt 7]"
    by (simp add: pipeline_defs df_intid_def)
  then have g: "map st_Geneid stats = [GInt 7]"
    using t rows stats by simp
  have e: "build_figure (str_number (lib_for df_intid)) stats = Inl ValueError"
    unfolding build_figure_def shown_genes_def Let_def g
    by (simp add: num_to_show_def enumerate_eq_zip line_trace_def validate_string_def Let_def)
  show ?thesis
    unfolding generate_html_dashboard_def Let_def
    apply (simp only: fs_print a b option.case node.case sum.case t rows stats e)
    apply (simp add: print_def w_input_def)
    done
qed

lemma missing_directory_raises:
  "generate_html_dashboard (lib_for df_two)
       ''sense_read_counts'' ''plots/expression_dashboard.html'' w_input =
     (Inl FileNotFoundError,
      \<lparr>fs = fs w_input,
       stdout = [''Loading sense_read_counts...'',
                 ''Calculating log2(TPM + 1)...'',
                 ''Aggregating data by condition...'',
                 ''Generating Interactive Ribbon Plots...'']\<rparr>)"
proof -
  have a: "fs w_input ''sense_read_counts'' = Some (File ''counts'')"
    by (simp add: w_input_def)
  have b: "read_csv (lib_for df_two) ''counts'' (CHR 0x09) (CHR ''#'') = Inr df_two"
    by (simp add: lib_for_def)
  have c: "\<not> isl (calculate_log2_tpm df_two)"
    "\<not> isl (plot_data_of (projr (calculate_log2_tpm df_two)))"
    by (simp_all add: pipeline_defs df_two_def)
  obtain t where t: "calculate_log2_tpm df_two = Inr t"
    using c(1) by (cases "calculate_log2_tpm df_two") auto
  obtain rows where rows: "plot_data_of t = Inr rows"
    using c(2) t by (cases "plot_data_of t") auto
  have stats: "aggregate_stats rows = Inr stats_two"
    using stats_two_Inr t rows by simp
  have f: "build_figure (str_number (lib_for df_two)) stats_two = Inr fig_two"
    by (rule fig_two_Inr)
  have pf: "plot_filename ''plots/expression_dashboard.html'' = ''plots/expression_dashboard.html''"
    by (simp add: plot_filename_def ends_with_def)
  have d: "dirname ''plots/expression_dashboard.html'' = Some ''plots''"
    by (simp add: dirname_def)
  have p: "plot (lib_for df_two) fig_two ''plots/expression_dashboard.html'' w =
      (Inl FileNotFoundError, w)" if "fs w = fs w_input" for w
    unfolding plot_def open_w_def pf d using that by (simp add: w_input_def)
  show ?thesis
    unfolding generate_html_dashboard_def Let_def
    apply (simp only: fs_print a b option.case node.case sum.case t rows stats f)
    apply (subst p)
     apply (simp add: fs_print)
    apply (simp add: print_def w_input_def)
    done
qed

lemma missing_column_raises:
  "calculate_log2_tpm (tl df_one) = Inl KeyError"
  "calculate_log2_tpm (filter (\<lambda>c. fst c \<noteq> ''Length'') df_one) = Inl KeyError"
  by (simp_all add: calculate_log2_tpm_def tpm_of_def rpk_of_def getitem_def df_one_def)

lemma text_count_raises:
  "calculate_log2_tpm (df_one @ [(''note'', Text [Some ''x''])]) = Inl TypeError"
  by (simp add: calculate_log2_tpm_def tpm_of_def rpk_of_def getitem_def df_one_def to_numeric_def)

lemma sample_named_log2TPM_raises:
  "\<not> isl (calculate_log2_tpm (df_one @ [(''log2TPM'', Ints [1])]))"
  "plot_data_of (projr (calculate_log2_tpm (df_one @ [(''log2TPM'', Ints [1])]))) = Inl ValueError"
  by (simp_all add: pipeline_defs df_one_def)

end
